theory Spec2Isabelle
  imports
    Main
    "HOL-Library.Word"
    "HOL-Library.Multiset"
    "HOL-Library.Char_ord"
    "HOL-Library.List_Lexorder"
    "HOL-Library.Product_Lexorder"
begin

section \<open>Shared vocabulary\<close>

text \<open>
  The development embeds the two programs of the repository that carry the
  acquisition and extraction logic: \<^verbatim>\<open>fetch.py\<close> (the backward crawl
  over calendar months) and \<^verbatim>\<open>parse.py\<close> (header detection, row
  extraction and cleaning). Byte strings are lists of 8-bit words. Text is a list of
  8-bit characters, which stand for the code points U+0000 to U+00FF: the development
  speaks about text in this range. The white-space classes below are those of Python and
  of polars on these code points; the case conversions are their ASCII part.
\<close>

type_synonym bytes = "8 word list"

datatype series = Import | Export

datatype py_error =
  ValueError | IndexError | TypeError | OverflowError | ExcelReadError | ComputeError

section \<open>fetch.py\<close>

subsection \<open>Dates\<close>

text \<open>
  \<^verbatim>\<open>datetime(year, month, 1)\<close> raises \<^verbatim>\<open>ValueError\<close> outside
  the years 1..9999 and the months 1..12.
\<close>

type_synonym date = "int \<times> int"

definition valid_date :: "date \<Rightarrow> bool" where
  "valid_date d \<longleftrightarrow> 1 \<le> fst d \<and> fst d \<le> 9999 \<and> 1 \<le> snd d \<and> snd d \<le> 12"

definition datetime :: "int \<Rightarrow> int \<Rightarrow> py_error + date" where
  "datetime year month = (if valid_date (year, month) then Inr (year, month) else Inl ValueError)"

text \<open>
  The step to the previous month, written twice in \<^verbatim>\<open>main\<close> (once from
  today, once at the end of each iteration).
\<close>

definition previous_month :: "date \<Rightarrow> py_error + date" where
  "previous_month d =
     (if snd d = 1 then datetime (fst d - 1) 12 else datetime (fst d) (snd d - 1))"

text \<open>The same step as plain calendar arithmetic, used to name the months of a run.\<close>

definition month_before :: "date \<Rightarrow> date" where
  "month_before d = (if snd d = 1 then (fst d - 1, 12) else (fst d, snd d - 1))"

fun months_back :: "nat \<Rightarrow> date \<Rightarrow> date" where
  "months_back 0 d = d"
| "months_back (Suc n) d = months_back n (month_before d)"

text \<open>Number of months between January of year 1 and the date.\<close>

definition month_index :: "date \<Rightarrow> int" where
  "month_index d = 12 * (fst d - 1) + (snd d - 1)"

subsection \<open>The archive fetcher\<close>

text \<open>
  The outcome of \<^verbatim>\<open>requests.get(url, timeout=30)\<close>: a response with its
  status code and body, a \<^verbatim>\<open>RequestException\<close>, or any other exception.
  The URL is an injective encoding of the series and the month, so the network is a
  function of these two. \<^verbatim>\<open>zipfile.ZipFile(io.BytesIO(content))\<close> opens the
  archive, raises \<^verbatim>\<open>BadZipFile\<close>, or raises something else.
\<close>

datatype http_outcome = Response int bytes | RequestException | OtherException

datatype zip_outcome = ZipOpened | BadZipFile | ZipOtherException

type_synonym network = "series \<Rightarrow> date \<Rightarrow> http_outcome"

type_synonym zip_library = "bytes \<Rightarrow> zip_outcome"

definition PK :: bytes where
  "PK = [0x50, 0x4B]"

text \<open>
  \<^verbatim>\<open>fetch_month_data\<close>: the date is built before the \<^verbatim>\<open>try\<close>, so
  its \<^verbatim>\<open>ValueError\<close> leaves the function; everything else is inside.
\<close>

definition fetch_month_data ::
  "network \<Rightarrow> zip_library \<Rightarrow> int \<Rightarrow> int \<Rightarrow> series \<Rightarrow> py_error + bytes option" where
  "fetch_month_data get zipfile year month data_type =
     (case datetime year month of
        Inl e \<Rightarrow> Inl e
      | Inr date \<Rightarrow>
          Inr (case get data_type date of
                 RequestException \<Rightarrow> None
               | OtherException \<Rightarrow> None
               | Response status_code content \<Rightarrow>
                   if status_code \<noteq> 200 then None
                   else if length content < 4 then None
                   else if take 2 content \<noteq> PK then None
                   else (case zipfile content of
                           ZipOpened \<Rightarrow> Some content
                         | BadZipFile \<Rightarrow> None
                         | ZipOtherException \<Rightarrow> None)))"

subsection \<open>The crawler\<close>

text \<open>
  The state of \<^verbatim>\<open>main\<close>: the cursor, the dictionary of consecutive failures,
  the archives present under \<^verbatim>\<open>raw/\<close> (the path is an injective encoding
  of series, year and month), the log of the requests issued so far and the seconds slept.
\<close>

record crawl_state =
  current_date :: date
  consecutive_failures :: "series \<Rightarrow> nat"
  raw_files :: "(series \<times> date) set"
  requests :: "(series \<times> date) list"
  slept :: nat

definition max_consecutive_failures :: nat where
  "max_consecutive_failures = 5"

text \<open>One pass of the inner \<^verbatim>\<open>for data_type in ['import', 'export']\<close> body.\<close>

definition fetch_series ::
  "network \<Rightarrow> zip_library \<Rightarrow> date \<Rightarrow> series \<Rightarrow> crawl_state \<times> bool
     \<Rightarrow> py_error + crawl_state \<times> bool" where
  "fetch_series get zipfile d data_type = (\<lambda>(s, made_request).
     if (data_type, d) \<in> raw_files s then
       Inr (s\<lparr>consecutive_failures := (consecutive_failures s)(data_type := 0)\<rparr>, made_request)
     else
       (case fetch_month_data get zipfile (fst d) (snd d) data_type of
          Inl e \<Rightarrow> Inl e
        | Inr content \<Rightarrow>
            let s = s\<lparr>requests := requests s @ [(data_type, d)]\<rparr> in
            if content \<noteq> None \<and> content \<noteq> Some [] then
              Inr (s\<lparr>raw_files := insert (data_type, d) (raw_files s),
                      consecutive_failures := (consecutive_failures s)(data_type := 0)\<rparr>, True)
            else
              Inr (s\<lparr>consecutive_failures :=
                        (consecutive_failures s)(data_type := consecutive_failures s data_type + 1)\<rparr>,
                   True)))"

text \<open>The body of the \<^verbatim>\<open>while\<close> loop: both series, then the cursor, then the pause.\<close>

definition crawl_month :: "network \<Rightarrow> zip_library \<Rightarrow> crawl_state \<Rightarrow> py_error + crawl_state" where
  "crawl_month get zipfile s =
     (let d = current_date s in
      case fetch_series get zipfile d Import (s, False) of
        Inl e \<Rightarrow> Inl e
      | Inr p \<Rightarrow>
          (case fetch_series get zipfile d Export p of
             Inl e \<Rightarrow> Inl e
           | Inr (s2, made_request) \<Rightarrow>
               (case previous_month d of
                  Inl e \<Rightarrow> Inl e
                | Inr d' \<Rightarrow>
                    Inr (s2\<lparr>current_date := d',
                            slept := slept s2 + (if made_request then 10 else 0)\<rparr>))))"

definition min_failures :: "crawl_state \<Rightarrow> nat" where
  "min_failures s = min (consecutive_failures s Import) (consecutive_failures s Export)"

text \<open>
  The \<^verbatim>\<open>while\<close> loop. It need not end (archives may be present for every
  month), so it is a partial function: \<open>None\<close> is a run that never leaves the loop,
  \<open>Some (Inl e)\<close> a run ended by an exception, \<open>Some (Inr s)\<close> a normal exit.
\<close>

partial_function (option) crawl_loop ::
  "network \<Rightarrow> zip_library \<Rightarrow> crawl_state \<Rightarrow> (py_error + crawl_state) option" where
  "crawl_loop get zipfile s =
     (if min_failures s < max_consecutive_failures then
        (case crawl_month get zipfile s of
           Inl e \<Rightarrow> Some (Inl e)
         | Inr s' \<Rightarrow> crawl_loop get zipfile s')
      else Some (Inr s))"

text \<open>\<^verbatim>\<open>main\<close> of fetch.py, from today's date and the archives already on disk.\<close>

definition initial_state :: "(series \<times> date) set \<Rightarrow> date \<Rightarrow> crawl_state" where
  "initial_state files d =
     \<lparr>current_date = d, consecutive_failures = (\<lambda>_. 0), raw_files = files,
      requests = [], slept = 0\<rparr>"

definition fetch_main ::
  "network \<Rightarrow> zip_library \<Rightarrow> (series \<times> date) set \<Rightarrow> date \<Rightarrow> (py_error + crawl_state) option" where
  "fetch_main get zipfile files today =
     (case previous_month today of
        Inl e \<Rightarrow> Some (Inl e)
      | Inr d \<Rightarrow> crawl_loop get zipfile (initial_state files d))"

text \<open>The loop body run \<open>n\<close> times without looking at the guard.\<close>

fun crawl_iter :: "network \<Rightarrow> zip_library \<Rightarrow> nat \<Rightarrow> crawl_state \<Rightarrow> py_error + crawl_state" where
  "crawl_iter get zipfile 0 s = Inr s"
| "crawl_iter get zipfile (Suc n) s =
     (case crawl_month get zipfile s of
        Inl e \<Rightarrow> Inl e
      | Inr s' \<Rightarrow> crawl_iter get zipfile n s')"

text \<open>
  The loop leaves normally after exactly \<open>n\<close> iterations, in state \<open>s'\<close>: the guard
  held before each of them and fails for the first time in \<open>s'\<close>.
\<close>

definition exits_at :: "network \<Rightarrow> zip_library \<Rightarrow> nat \<Rightarrow> crawl_state \<Rightarrow> crawl_state \<Rightarrow> bool" where
  "exits_at get zipfile n s s' \<longleftrightarrow>
     crawl_iter get zipfile n s = Inr s' \<and> max_consecutive_failures \<le> min_failures s' \<and>
     (\<forall>k<n. \<forall>t. crawl_iter get zipfile k s = Inr t \<longrightarrow> min_failures t < max_consecutive_failures)"

text \<open>The test \<^verbatim>\<open>if content:\<close> of the crawler, for the fetch of one series at one month.\<close>

definition fetch_ok :: "network \<Rightarrow> zip_library \<Rightarrow> date \<Rightarrow> series \<Rightarrow> bool" where
  "fetch_ok get zipfile d x \<longleftrightarrow>
     (case fetch_month_data get zipfile (fst d) (snd d) x of
        Inr (Some c) \<Rightarrow> c \<noteq> []
      | _ \<Rightarrow> False)"

text \<open>The requests of \<open>n\<close> months in which both series are fetched, from month \<open>d\<close> backwards.\<close>

fun month_requests :: "nat \<Rightarrow> date \<Rightarrow> (series \<times> date) list" where
  "month_requests 0 d = []"
| "month_requests (Suc n) d = [(Import, d), (Export, d)] @ month_requests n (month_before d)"

text \<open>A crawl state used as a concrete input below.\<close>

definition example_state :: crawl_state where
  "example_state =
     \<lparr>current_date = (2021, 11), consecutive_failures = (\<lambda>_. 3),
      raw_files = {(Import, (2021, 11)), (Export, (2021, 11))}, requests = [], slept = 0\<rparr>"

section \<open>parse.py\<close>

subsection \<open>Text\<close>

text \<open>
  \<^verbatim>\<open>str.upper\<close> and \<^verbatim>\<open>str.lower\<close> on ASCII letters; every other
  character is left alone.
\<close>

definition lower_char :: "char \<Rightarrow> char" where
  "lower_char c =
     (case map_of (zip ''ABCDEFGHIJKLMNOPQRSTUVWXYZ'' ''abcdefghijklmnopqrstuvwxyz'') c of
        Some l \<Rightarrow> l
      | None \<Rightarrow> c)"

definition upper_char :: "char \<Rightarrow> char" where
  "upper_char c =
     (case map_of (zip ''abcdefghijklmnopqrstuvwxyz'' ''ABCDEFGHIJKLMNOPQRSTUVWXYZ'') c of
        Some u \<Rightarrow> u
      | None \<Rightarrow> c)"

text \<open>
  The polars expressions \<^verbatim>\<open>str.to_lowercase()\<close> and
  \<^verbatim>\<open>str.strip_chars()\<close>; the latter removes leading and trailing white space,
  the characters with the Unicode property White_Space: up to U+00FF these are tab, line
  feed, vertical tab, form feed, carriage return, space, next line (U+0085) and
  no-break space (U+00A0).
\<close>

definition to_lowercase :: "string \<Rightarrow> string" where
  "to_lowercase s = map lower_char s"

definition is_whitespace :: "char \<Rightarrow> bool" where
  "is_whitespace c \<longleftrightarrow>
     c \<in> set [CHR 0x09, CHR 0x0A, CHR 0x0B, CHR 0x0C, CHR 0x0D, CHR '' '', CHR 0x85, CHR 0xA0]"

definition strip_chars :: "string \<Rightarrow> string" where
  "strip_chars s = rev (dropWhile is_whitespace (rev (dropWhile is_whitespace s)))"

subsection \<open>The cleaned table\<close>

text \<open>
  One row of the polars frame that \<^verbatim>\<open>parse_xls_file\<close> builds and
  \<^verbatim>\<open>clean_data\<close> receives, with the column types the frame has there: text for
  Commodity, Country, Port and Type, Int32 for Year and Month, nullable Int64 for the
  three amounts, nullable text for Unit. No arithmetic is done on the integers, so they
  are plain integers here.
\<close>

record trade_record =
  Commodity :: string
  Country :: string
  Port :: string
  Year :: int
  Month :: int
  Type :: string
  Quantity :: "int option"
  Unit :: "string option"
  INR_Value :: "int option"
  USD_Value :: "int option"

type_synonym dataframe = "trade_record list"

definition fill_null :: "int \<Rightarrow> int option \<Rightarrow> int" where
  "fill_null d v = (case v of None \<Rightarrow> d | Some x \<Rightarrow> x)"

text \<open>
  The \<^verbatim>\<open>pl.when(...)\<close> condition on Unit, and the \<^verbatim>\<open>with_columns\<close>
  step. The five casts of that step are to the types the columns already have, so only
  Unit changes.
\<close>

definition unit_is_blank :: "string option \<Rightarrow> bool" where
  "unit_is_blank u =
     (case u of None \<Rightarrow> True | Some s \<Rightarrow> strip_chars s = [] \<or> to_lowercase s = ''nan'')"

definition with_columns :: "trade_record \<Rightarrow> trade_record" where
  "with_columns r = r\<lparr>Unit := (if unit_is_blank (Unit r) then Some ''N/A'' else Unit r)\<rparr>"

text \<open>The condition whose negation is the \<^verbatim>\<open>filter\<close>.\<close>

definition all_zero :: "trade_record \<Rightarrow> bool" where
  "all_zero r \<longleftrightarrow>
     fill_null 0 (Quantity r) = 0 \<and> fill_null 0 (INR_Value r) = 0 \<and> fill_null 0 (USD_Value r) = 0"

text \<open>The columns of the final \<^verbatim>\<open>sort\<close>, compared lexicographically.\<close>

definition sort_columns :: "trade_record \<Rightarrow> string \<times> string \<times> string \<times> int \<times> int \<times> string" where
  "sort_columns r = (Commodity r, Country r, Port r, Year r, Month r, Type r)"

text \<open>
  \<^verbatim>\<open>df.unique()\<close> and \<^verbatim>\<open>df.sort(...)\<close> are called with polars' default
  \<^verbatim>\<open>maintain_order=False\<close>: the first returns the distinct rows in an unspecified
  order, the second leaves the order of rows with equal keys unspecified. Both are
  therefore parameters of the model, and what polars promises of them is a predicate.
  \<^const>\<open>remdups\<close> and \<^const>\<open>sort_key\<close> are one pair of implementations.
\<close>

definition unique_contract :: "(dataframe \<Rightarrow> dataframe) \<Rightarrow> bool" where
  "unique_contract unique \<longleftrightarrow> (\<forall>df. distinct (unique df) \<and> set (unique df) = set df)"

definition sort_contract :: "(dataframe \<Rightarrow> dataframe) \<Rightarrow> bool" where
  "sort_contract sort_rows \<longleftrightarrow>
     (\<forall>df. mset (sort_rows df) = mset df \<and> sorted (map sort_columns (sort_rows df)))"

definition clean_data ::
  "(dataframe \<Rightarrow> dataframe) \<Rightarrow> (dataframe \<Rightarrow> dataframe) \<Rightarrow> dataframe \<Rightarrow> dataframe" where
  "clean_data unique sort_rows df =
     (let df = unique df;
          df = map with_columns df;
          df = filter (\<lambda>r. \<not> all_zero r) df;
          df = sort_rows df
      in df)"

text \<open>
  The fan-in of \<^verbatim>\<open>main\<close>: the empty frames are dropped; with nothing left the run
  stops without output, otherwise the frames are concatenated and cleaned.
\<close>

definition clean_batches ::
  "(dataframe \<Rightarrow> dataframe) \<Rightarrow> (dataframe \<Rightarrow> dataframe) \<Rightarrow> dataframe list \<Rightarrow> dataframe option" where
  "clean_batches unique sort_rows results =
     (let all_dataframes = filter (\<lambda>df. df \<noteq> []) results in
      if all_dataframes = [] then None
      else Some (clean_data unique sort_rows (concat all_dataframes)))"

subsection \<open>The wording of the specification\<close>

text \<open>An amount is null or zero.\<close>

definition null_or_zero :: "int option \<Rightarrow> bool" where
  "null_or_zero v \<longleftrightarrow> v = None \<or> v = Some 0"

text \<open>
  A unit is null, blank or made of white space only, or is the word nan in one of its
  eight spellings. White space is tab, line feed, vertical tab, form feed, carriage
  return, space, next line and no-break space.
\<close>

definition nan_spellings :: "string list" where
  "nan_spellings = [''nan'', ''naN'', ''nAn'', ''nAN'', ''Nan'', ''NaN'', ''NAn'', ''NAN'']"

definition white_space :: "char list" where
  "white_space = [CHR 0x09, CHR 0x0A, CHR 0x0B, CHR 0x0C, CHR 0x0D, CHR 0x20, CHR 0x85, CHR 0xA0]"

definition blank_unit :: "string option \<Rightarrow> bool" where
  "blank_unit u \<longleftrightarrow>
     u = None
     \<or> (\<exists>s. u = Some s \<and> ((\<forall>c\<in>set s. c \<in> set white_space) \<or> s \<in> set nan_spellings))"

subsection \<open>Rows used as concrete inputs\<close>

definition rice :: trade_record where
  "rice = \<lparr>Commodity = ''RICE'', Country = ''NEPAL'', Port = ''KOLKATA'', Year = 2021, Month = 11,
           Type = ''Export'', Quantity = Some 5, Unit = Some ''KGS'', INR_Value = Some 100,
           USD_Value = Some 2\<rparr>"

definition wheat :: trade_record where
  "wheat = rice\<lparr>Commodity := ''WHEAT''\<rparr>"

definition zero_rows :: dataframe where
  "zero_rows =
     [rice\<lparr>Quantity := Some 0, INR_Value := None, USD_Value := Some 0\<rparr>,
      rice\<lparr>Quantity := Some 0, INR_Value := Some 0, USD_Value := Some 5\<rparr>]"

definition unit_rows :: dataframe where
  "unit_rows =
     [rice\<lparr>Unit := Some '' ''\<rparr>, rice\<lparr>Port := ''MUMBAI'', Unit := Some ''NaN''\<rparr>,
      rice\<lparr>Port := ''CHENNAI'', Unit := None\<rparr>,
      rice\<lparr>Port := ''KANDLA'', Unit := Some [CHR 0xA0, CHR 0x85]\<rparr>, wheat]"

text \<open>Two rows that differ only in a blank unit against the default unit.\<close>

definition blank_unit_pair :: dataframe where
  "blank_unit_pair = [rice\<lparr>Unit := Some []\<rparr>, rice\<lparr>Unit := Some ''N/A''\<rparr>]"

text \<open>Two batches whose rows agree on the sort columns and differ in the quantity.\<close>

definition tied_batches :: "dataframe list" where
  "tied_batches = [[rice], [rice\<lparr>Quantity := Some 7\<rparr>]]"

definition keyed_batches :: "dataframe list" where
  "keyed_batches = [[wheat], [], [rice, rice]]"

subsection \<open>Spreadsheet cells and the header scan\<close>

text \<open>
  A cell of the pandas frame read with \<^verbatim>\<open>dtype=str\<close>: text, the missing value
  NaN, or \<^verbatim>\<open>None\<close> (which only the column padding of
  \<^verbatim>\<open>parse_xls_file\<close> writes).
\<close>

datatype cell = Str string | NaN | PyNone

definition upper :: "string \<Rightarrow> string" where
  "upper s = map upper_char s"

text \<open>The test \<^verbatim>\<open>sub in s\<close> on strings.\<close>

fun occurs_in :: "string \<Rightarrow> string \<Rightarrow> bool" where
  "occurs_in sub [] = (sub = [])"
| "occurs_in sub (c # cs) = (take (length sub) (c # cs) = sub \<or> occurs_in sub cs)"

text \<open>The dictionary \<^verbatim>\<open>indices\<close> of \<^verbatim>\<open>find_column_indices\<close>.\<close>

record column_indices =
  commodity :: "nat option"
  country :: "nat option"
  port :: "nat option"
  unit :: "nat option"
  qty :: "nat option"
  inr :: "nat option"
  usd :: "nat option"

definition no_indices :: column_indices where
  "no_indices = \<lparr>commodity = None, country = None, port = None, unit = None, qty = None,
                  inr = None, usd = None\<rparr>"

text \<open>
  The body of the loop over \<^verbatim>\<open>enumerate(header_row)\<close>: one chain of
  \<^verbatim>\<open>if\<close>/\<^verbatim>\<open>elif\<close>, so a cell feeds at most one field. The first five
  branches test that the field is still free in the condition; the last two test it inside
  the branch, so a cell with INR in it never reaches the USD branch.
\<close>

definition assign_column :: "nat \<Rightarrow> cell \<Rightarrow> column_indices \<Rightarrow> column_indices" where
  "assign_column idx val indices =
     (case val of
        Str v \<Rightarrow>
          let val_upper = upper v in
          if occurs_in ''COMMODITY'' val_upper \<and> commodity indices = None then
            indices\<lparr>commodity := Some idx\<rparr>
          else if occurs_in ''COUNTRY'' val_upper \<and> country indices = None then
            indices\<lparr>country := Some idx\<rparr>
          else if occurs_in ''PORT'' val_upper \<and> port indices = None then
            indices\<lparr>port := Some idx\<rparr>
          else if val_upper = ''UNIT'' \<and> unit indices = None then
            indices\<lparr>unit := Some idx\<rparr>
          else if val_upper = ''QTY'' \<and> qty indices = None then
            indices\<lparr>qty := Some idx\<rparr>
          else if occurs_in ''INR'' val_upper \<or> occurs_in ''VALUE(INR)'' val_upper then
            (if inr indices = None then indices\<lparr>inr := Some idx\<rparr> else indices)
          else if occurs_in ''US $'' val_upper \<or> occurs_in ''USD'' val_upper
                  \<or> occurs_in ''VALUE(US'' val_upper then
            (if usd indices = None then indices\<lparr>usd := Some idx\<rparr> else indices)
          else indices
      | _ \<Rightarrow> indices)"

fun scan_header :: "nat \<Rightarrow> cell list \<Rightarrow> column_indices \<Rightarrow> column_indices" where
  "scan_header idx [] indices = indices"
| "scan_header idx (val # rest) indices = scan_header (Suc idx) rest (assign_column idx val indices)"

definition find_column_indices :: "cell list \<Rightarrow> column_indices" where
  "find_column_indices header_row = scan_header 0 header_row no_indices"

text \<open>
  The match rules of the specification, on the upper-cased text of a cell; a cell that is
  not text matches nothing.
\<close>

definition cell_matches :: "(string \<Rightarrow> bool) \<Rightarrow> cell \<Rightarrow> bool" where
  "cell_matches rule c = (case c of Str v \<Rightarrow> rule (upper v) | _ \<Rightarrow> False)"

definition commodity_rule :: "string \<Rightarrow> bool" where
  "commodity_rule t \<longleftrightarrow> occurs_in ''COMMODITY'' t"

definition country_rule :: "string \<Rightarrow> bool" where
  "country_rule t \<longleftrightarrow> occurs_in ''COUNTRY'' t"

definition port_rule :: "string \<Rightarrow> bool" where
  "port_rule t \<longleftrightarrow> occurs_in ''PORT'' t"

definition unit_rule :: "string \<Rightarrow> bool" where
  "unit_rule t \<longleftrightarrow> t = ''UNIT''"

definition qty_rule :: "string \<Rightarrow> bool" where
  "qty_rule t \<longleftrightarrow> t = ''QTY''"

definition inr_rule :: "string \<Rightarrow> bool" where
  "inr_rule t \<longleftrightarrow> occurs_in ''INR'' t \<or> occurs_in ''VALUE(INR)'' t"

definition usd_rule :: "string \<Rightarrow> bool" where
  "usd_rule t \<longleftrightarrow> occurs_in ''US $'' t \<or> occurs_in ''USD'' t \<or> occurs_in ''VALUE(US'' t"

text \<open>The first position of a list whose index and element satisfy a predicate.\<close>

fun first_from :: "nat \<Rightarrow> (nat \<Rightarrow> 'a \<Rightarrow> bool) \<Rightarrow> 'a list \<Rightarrow> nat option" where
  "first_from i P [] = None"
| "first_from i P (x # xs) = (if P i x then Some i else first_from (Suc i) P xs)"

definition first_index :: "(nat \<Rightarrow> 'a \<Rightarrow> bool) \<Rightarrow> 'a list \<Rightarrow> nat option" where
  "first_index P xs = first_from 0 P xs"

text \<open>The seven fields in the order of the dictionary, and the columns taken by the first three.\<close>

definition index_fields :: "(column_indices \<Rightarrow> nat option) list" where
  "index_fields = [commodity, country, port, unit, qty, inr, usd]"


subsection \<open>Reading one spreadsheet\<close>

datatype excel_format = Xlsx | Xls

datatype engine = Openpyxl | Xlrd

definition OLE2 :: bytes where
  "OLE2 = [0xD0, 0xCF, 0x11, 0xE0, 0xA1, 0xB1, 0x1A, 0xE1]"

definition detect_excel_format :: "bytes \<Rightarrow> excel_format option" where
  "detect_excel_format xls_data =
     (if length xls_data < 8 then None
      else if take 2 xls_data = PK then Some Xlsx
      else if take 8 xls_data = OLE2 then Some Xls
      else None)"

text \<open>
  What \<^verbatim>\<open>parse_xls_file\<close> takes from its libraries: whether
  \<^verbatim>\<open>import xlrd\<close> succeeds; \<^verbatim>\<open>pd.read_excel\<close> with the keyword
  arguments of the source and the given engine, which raises (\<open>None\<close>) or returns the
  rows of the sheet, each as long as the sheet stores it, with the cells listed in
  \<^verbatim>\<open>na_values\<close> already NaN; which texts pandas reads as a number; and the
  conversion of a numeric column. The source calls
  \<^verbatim>\<open>pd.to_numeric(col, errors='coerce')\<close> on a column of the frame and hands the
  series to \<^verbatim>\<open>pl.from_pandas\<close> with the schema override Int64. Both work on the
  column as a whole: pandas makes a float64 series of it as soon as one cell is not a
  number, and polars raises when a value of the series does not fit a 64-bit integer, so
  what a cell becomes depends on the other cells of its column. \<open>to_int64\<close> is the two
  steps together on the cells of a column: the nullable integers of the column, or
  \<open>None\<close> when the conversion raises.
\<close>

record libraries =
  xlrd_installed :: bool
  read_excel :: "engine option \<Rightarrow> bytes \<Rightarrow> cell list list option"
  numeric_text :: "string \<Rightarrow> bool"
  to_int64 :: "cell list \<Rightarrow> int option list option"

definition choose_engine :: "libraries \<Rightarrow> excel_format option \<Rightarrow> engine option" where
  "choose_engine lib file_format =
     (case file_format of
        Some Xlsx \<Rightarrow> Some Openpyxl
      | Some Xls \<Rightarrow> (if xlrd_installed lib then Some Xlrd else None)
      | None \<Rightarrow> None)"

text \<open>The read with the chosen engine and the single retry without an engine.\<close>

definition read_sheet :: "libraries \<Rightarrow> bytes \<Rightarrow> py_error + cell list list" where
  "read_sheet lib xls_data =
     (let engine = choose_engine lib (detect_excel_format xls_data) in
      case read_excel lib engine xls_data of
        Some rows \<Rightarrow> Inr rows
      | None \<Rightarrow>
          (case engine of
             Some _ \<Rightarrow>
               (case read_excel lib None xls_data of
                  Some rows \<Rightarrow> Inr rows
                | None \<Rightarrow> Inl ExcelReadError)
           | None \<Rightarrow> Inl ExcelReadError))"

text \<open>
  A pandas frame is rectangular: it is as wide as the longest row of the sheet, and the
  positions a shorter row does not have hold NaN.
\<close>

definition ncols :: "cell list list \<Rightarrow> nat" where
  "ncols rows = foldr (\<lambda>r n. max (length r) n) rows 0"

definition pad_row :: "nat \<Rightarrow> cell \<Rightarrow> cell list \<Rightarrow> cell list" where
  "pad_row n c r = r @ replicate (n - length r) c"

definition data_frame :: "cell list list \<Rightarrow> cell list list" where
  "data_frame rows = map (pad_row (ncols rows) NaN) rows"

subsection \<open>Extracting the rows\<close>

text \<open>
  \<^verbatim>\<open>astype(str)\<close> on a cell, Python's \<^verbatim>\<open>str.strip()\<close>, and the mask
  on the commodity column. For Python the white space up to U+00FF is tab, line feed,
  vertical tab, form feed, carriage return, the four separators U+001C to U+001F, space,
  next line (U+0085) and no-break space (U+00A0).
\<close>

definition astype_str :: "cell \<Rightarrow> string" where
  "astype_str c = (case c of Str s \<Rightarrow> s | NaN \<Rightarrow> ''nan'' | PyNone \<Rightarrow> ''None'')"

definition isspace :: "char \<Rightarrow> bool" where
  "isspace c \<longleftrightarrow>
     c \<in> set [CHR 0x09, CHR 0x0A, CHR 0x0B, CHR 0x0C, CHR 0x0D, CHR 0x1C, CHR 0x1D, CHR 0x1E,
              CHR 0x1F, CHR '' '', CHR 0x85, CHR 0xA0]"

definition strip :: "string \<Rightarrow> string" where
  "strip s = rev (dropWhile isspace (rev (dropWhile isspace s)))"

definition valid_commodity :: "string \<Rightarrow> bool" where
  "valid_commodity t \<longleftrightarrow> t \<noteq> [] \<and> upper t \<notin> set [''COMMODITY'', ''NAN'', ''NONE'', []]"

text \<open>\<^verbatim>\<open>data_df.iloc[:, i]\<close> raises \<^verbatim>\<open>IndexError\<close> beyond the last column.\<close>

definition iloc_column :: "nat \<Rightarrow> cell list list \<Rightarrow> nat \<Rightarrow> py_error + cell list" where
  "iloc_column width data_df i =
     (if i < width then Inr (map (\<lambda>r. r ! i) data_df) else Inl IndexError)"

text \<open>The padding of the frame with columns of \<^verbatim>\<open>None\<close> up to the largest index found.\<close>

definition pad_columns :: "column_indices \<Rightarrow> nat \<Rightarrow> cell list list \<Rightarrow> nat \<times> cell list list" where
  "pad_columns indices width data_df =
     (let valid_indices = concat (map (\<lambda>f. case f indices of None \<Rightarrow> [] | Some i \<Rightarrow> [i]) index_fields) in
      if valid_indices \<noteq> [] then
        let max_col = fold max valid_indices 0 in
        if max_col \<ge> width then
          (max_col + 1, map (\<lambda>r. r @ replicate (max_col + 1 - width) PyNone) data_df)
        else (width, data_df)
      else (width, data_df))"

definition safe_str_extract ::
  "nat \<Rightarrow> cell list list \<Rightarrow> nat option \<Rightarrow> string \<Rightarrow> py_error + string list" where
  "safe_str_extract width data_df col_idx dflt =
     (case col_idx of
        None \<Rightarrow> Inr (replicate (length data_df) dflt)
      | Some i \<Rightarrow>
          (case iloc_column width data_df i of
             Inl e \<Rightarrow> Inl e
           | Inr col \<Rightarrow>
               Inr (map (\<lambda>c. let t = strip (astype_str c) in if t = ''nan'' then dflt else t) col)))"

text \<open>
  A numeric series of the pandas frame \<^verbatim>\<open>result_df\<close>: the float64 series of
  missing values that \<^verbatim>\<open>safe_numeric_extract\<close> builds for a field without a
  column, or the series \<^verbatim>\<open>pd.to_numeric(series, errors='coerce')\<close> of a column of
  cells. The latter is kept as the cells it is made from; pandas does not raise here, and
  the numbers are read where they are used, in \<^verbatim>\<open>pl.from_pandas\<close>.
\<close>

datatype numeric_series = Missing nat | To_numeric "cell list"

definition parse_numeric_series :: "cell list \<Rightarrow> numeric_series" where
  "parse_numeric_series series = To_numeric series"

definition safe_numeric_extract ::
  "nat \<Rightarrow> cell list list \<Rightarrow> nat option \<Rightarrow> py_error + numeric_series" where
  "safe_numeric_extract width data_df col_idx =
     (case col_idx of
        None \<Rightarrow> Inr (Missing (length data_df))
      | Some i \<Rightarrow>
          (case iloc_column width data_df i of
             Inl e \<Rightarrow> Inl e
           | Inr col \<Rightarrow> Inr (parse_numeric_series col)))"

text \<open>
  The conversion of one numeric series to a nullable Int64 column by
  \<^verbatim>\<open>pl.from_pandas\<close>: missing values become null, and the conversion of a column
  of cells raises when the library says so.
\<close>

definition from_pandas :: "libraries \<Rightarrow> numeric_series \<Rightarrow> py_error + int option list" where
  "from_pandas lib s =
     (case s of
        Missing n \<Rightarrow> Inr (replicate n None)
      | To_numeric col \<Rightarrow>
          (case to_int64 lib col of
             None \<Rightarrow> Inl ComputeError
           | Some ints \<Rightarrow> Inr ints))"

text \<open>A pandas series of dtype int32 cannot hold an integer outside 32 bits.\<close>

definition int32 :: "int \<Rightarrow> bool" where
  "int32 v \<longleftrightarrow> - (2 ^ 31) \<le> v \<and> v < 2 ^ 31"

text \<open>Sequencing of steps that may raise.\<close>

definition then_do :: "py_error + 'a \<Rightarrow> ('a \<Rightarrow> py_error + 'b) \<Rightarrow> py_error + 'b" where
  "then_do r f = (case r of Inl e \<Rightarrow> Inl e | Inr x \<Rightarrow> f x)"

definition import_export :: "series \<Rightarrow> string" where
  "import_export data_type = (case data_type of Import \<Rightarrow> ''Import'' | Export \<Rightarrow> ''Export'')"

text \<open>
  The part of \<^verbatim>\<open>parse_xls_file\<close> after the data rows are cut out, column by
  column as in the source, ending with the conversion of the pandas frame to the polars
  frame of records, which raises when one of the three numeric columns cannot be
  converted.
\<close>

definition extract_rows ::
  "libraries \<Rightarrow> column_indices \<Rightarrow> nat \<Rightarrow> cell list list \<Rightarrow> int \<Rightarrow> int \<Rightarrow> series
     \<Rightarrow> py_error + dataframe" where
  "extract_rows lib indices width0 data_df0 year month data_type =
     (case pad_columns indices width0 data_df0 of (width, data_df1) \<Rightarrow>
      case commodity indices of
        None \<Rightarrow> Inl TypeError
      | Some ci \<Rightarrow>
          then_do (iloc_column width data_df1 ci) (\<lambda>col.
            let kept = filter (\<lambda>(r, c). valid_commodity c)
                         (zip data_df1 (map (\<lambda>c. strip (astype_str c)) col))
            in
            if kept = [] then Inr []
            else
              let data_df = map fst kept; commodity_col = map snd kept in
              then_do (safe_str_extract width data_df (country indices) []) (\<lambda>country_col.
              then_do (safe_str_extract width data_df (port indices) []) (\<lambda>port_col.
              then_do (safe_str_extract width data_df (unit indices) ''N/A'') (\<lambda>unit_col.
              then_do (safe_numeric_extract width data_df (qty indices)) (\<lambda>qty_col.
              then_do (safe_numeric_extract width data_df (inr indices)) (\<lambda>inr_col.
              then_do (safe_numeric_extract width data_df (usd indices)) (\<lambda>usd_col.
                if \<not> int32 year \<or> \<not> int32 month then Inl OverflowError
                else
                  then_do (from_pandas lib qty_col) (\<lambda>quantity.
                  then_do (from_pandas lib inr_col) (\<lambda>inr_value.
                  then_do (from_pandas lib usd_col) (\<lambda>usd_value.
                    Inr (map (\<lambda>j. \<lparr>Commodity = commodity_col ! j, Country = country_col ! j,
                                    Port = port_col ! j, Year = year, Month = month,
                                    Type = import_export data_type, Quantity = quantity ! j,
                                    Unit = Some (unit_col ! j), INR_Value = inr_value ! j,
                                    USD_Value = usd_value ! j\<rparr>)
                           [0..<length data_df]))))))))))))"

text \<open>The body of the \<^verbatim>\<open>try\<close> block.\<close>

definition parse_xls_body ::
  "libraries \<Rightarrow> bytes \<Rightarrow> int \<Rightarrow> int \<Rightarrow> series \<Rightarrow> py_error + dataframe" where
  "parse_xls_body lib xls_data year month data_type =
     then_do (read_sheet lib xls_data) (\<lambda>rows.
       let df_pandas = data_frame rows; width = ncols rows in
       if (df_pandas = [] \<or> width = 0) \<or> length df_pandas < 2 then Inr []
       else
         let header_row = df_pandas ! 1; indices = find_column_indices header_row in
         if commodity indices = None \<or> country indices = None then Inr []
         else
           let data_df = drop 2 df_pandas in
           if data_df = [] then Inr []
           else extract_rows lib indices width data_df year month data_type)"

text \<open>
  \<^verbatim>\<open>parse_xls_file\<close>: every exception of the body is caught and replaced by the
  empty frame.
\<close>

definition parse_xls_file ::
  "libraries \<Rightarrow> bytes \<Rightarrow> int \<Rightarrow> int \<Rightarrow> series \<Rightarrow> py_error + dataframe" where
  "parse_xls_file lib xls_data year month data_type =
     (case parse_xls_body lib xls_data year month data_type of
        Inl e \<Rightarrow> Inr []
      | Inr df \<Rightarrow> Inr df)"

subsection \<open>The row normaliser, row by row\<close>

text \<open>
  The cell of a row of the sheet at a column, missing when the row is too short; the text
  fields of a row; the validity of a row; the numeric column of a field over the valid
  rows, converted as a whole; the record of a row with its three numbers; and the
  records of a sheet, none when a numeric column cannot be converted.
\<close>

definition cell_at :: "cell list \<Rightarrow> nat \<Rightarrow> cell" where
  "cell_at r i = (if i < length r then r ! i else NaN)"

definition str_field :: "nat option \<Rightarrow> string \<Rightarrow> cell list \<Rightarrow> string" where
  "str_field idx dflt r =
     (case idx of
        None \<Rightarrow> dflt
      | Some i \<Rightarrow> let t = strip (astype_str (cell_at r i)) in if t = ''nan'' then dflt else t)"

definition row_valid :: "column_indices \<Rightarrow> cell list \<Rightarrow> bool" where
  "row_valid indices r =
     (case commodity indices of
        None \<Rightarrow> False
      | Some ci \<Rightarrow> valid_commodity (strip (astype_str (cell_at r ci))))"

definition numeric_column ::
  "libraries \<Rightarrow> nat option \<Rightarrow> cell list list \<Rightarrow> int option list option" where
  "numeric_column lib idx rows =
     (case idx of
        None \<Rightarrow> Some (replicate (length rows) None)
      | Some i \<Rightarrow> to_int64 lib (map (\<lambda>r. cell_at r i) rows))"

definition row_record ::
  "column_indices \<Rightarrow> int \<Rightarrow> int \<Rightarrow> series \<Rightarrow> cell list \<Rightarrow> int option \<Rightarrow> int option
     \<Rightarrow> int option \<Rightarrow> trade_record" where
  "row_record indices year month data_type r quantity inr_value usd_value =
     \<lparr>Commodity = (case commodity indices of
                      None \<Rightarrow> []
                    | Some ci \<Rightarrow> strip (astype_str (cell_at r ci))),
      Country = str_field (country indices) [] r,
      Port = str_field (port indices) [] r,
      Year = year, Month = month, Type = import_export data_type,
      Quantity = quantity,
      Unit = Some (str_field (unit indices) ''N/A'' r),
      INR_Value = inr_value,
      USD_Value = usd_value\<rparr>"

definition row_records ::
  "column_indices \<Rightarrow> int \<Rightarrow> int \<Rightarrow> series \<Rightarrow> cell list list \<Rightarrow> int option list
     \<Rightarrow> int option list \<Rightarrow> int option list \<Rightarrow> dataframe" where
  "row_records indices year month data_type kept quantity inr_value usd_value =
     map (\<lambda>j. row_record indices year month data_type (kept ! j) (quantity ! j) (inr_value ! j)
                (usd_value ! j))
       [0..<length kept]"

text \<open>
  The frame of the valid rows once the three numeric columns are converted, or the error
  of the conversion.
\<close>

definition converted ::
  "libraries \<Rightarrow> column_indices \<Rightarrow> int \<Rightarrow> int \<Rightarrow> series \<Rightarrow> cell list list
     \<Rightarrow> py_error + dataframe" where
  "converted lib ind y m dt kept =
     (case numeric_column lib (qty ind) kept of
        None \<Rightarrow> Inl ComputeError
      | Some q \<Rightarrow>
          (case numeric_column lib (inr ind) kept of
             None \<Rightarrow> Inl ComputeError
           | Some v \<Rightarrow>
               (case numeric_column lib (usd ind) kept of
                  None \<Rightarrow> Inl ComputeError
                | Some u \<Rightarrow> Inr (row_records ind y m dt kept q v u))))"

definition sheet_records ::
  "libraries \<Rightarrow> cell list list \<Rightarrow> int \<Rightarrow> int \<Rightarrow> series \<Rightarrow> dataframe" where
  "sheet_records lib rows year month data_type =
     (if length rows < 2 then []
      else
        let indices = find_column_indices (rows ! 1) in
        if commodity indices = None \<or> country indices = None then []
        else if \<not> int32 year \<or> \<not> int32 month then []
        else
          let kept = filter (row_valid indices) (drop 2 rows) in
          if kept = [] then []
          else
            (case numeric_column lib (qty indices) kept of
               None \<Rightarrow> []
             | Some quantity \<Rightarrow>
                 (case numeric_column lib (inr indices) kept of
                    None \<Rightarrow> []
                  | Some inr_value \<Rightarrow>
                      (case numeric_column lib (usd indices) kept of
                         None \<Rightarrow> []
                       | Some usd_value \<Rightarrow>
                           row_records indices year month data_type kept quantity inr_value
                             usd_value))))"




subsection \<open>The numeric conversion on columns of whole numbers\<close>









subsection \<open>Headers, sheets and libraries used as concrete inputs\<close>

definition spec_header :: "cell list" where
  "spec_header = [Str ''S.No'', Str ''Commodity Name'', Str ''Country of Destination'', Str ''QTY'',
                  Str ''Unit'', Str ''Value(INR)'', Str ''Value(US $)'']"






definition broken_libraries :: libraries where
  "broken_libraries =
     \<lparr>xlrd_installed = True, read_excel = (\<lambda>engine data. None),
      numeric_text = (\<lambda>s. False), to_int64 = (\<lambda>col. None)\<rparr>"

definition sheet_libraries :: "cell list list \<Rightarrow> libraries" where
  "sheet_libraries sheet =
     \<lparr>xlrd_installed = False,
      read_excel = (\<lambda>engine data. if engine = None then Some sheet else None),
      numeric_text = (\<lambda>s. False),
      to_int64 = (\<lambda>col. Some (map (\<lambda>c. None) col))\<rparr>"

definition echo_sheet :: "cell list list" where
  "echo_sheet =
     [[Str ''Export data''], spec_header, [NaN, Str ''Commodity'', Str ''Country''],
      [Str ''3'', Str '' '', Str ''NEPAL'']]"

section \<open>Properties of fetch.py\<close>

subsection \<open>Calendar and fetcher\<close>

lemma previous_month_ok:
  assumes "valid_date d" "1 \<le> month_index d"
  shows "previous_month d = Inr (month_before d)" "valid_date (month_before d)"
    "month_index (month_before d) = month_index d - 1"
  using assms by (auto simp: previous_month_def month_before_def datetime_def valid_date_def month_index_def)

lemma month_before_neq: "month_before d \<noteq> d" "month_before (month_before d) \<noteq> d"
  by (cases d; simp add: month_before_def split: if_splits)+

lemma fetch_month_data_valid:
  "valid_date d \<Longrightarrow> \<exists>c. fetch_month_data get zf (fst d) (snd d) x = Inr c"
  by (simp add: fetch_month_data_def datetime_def)

lemma fetch_series_effect:
  assumes "valid_date d"
  shows "\<exists>s' mr'. fetch_series get zf d x (s, mr) = Inr (s', mr')
     \<and> current_date s' = current_date s
     \<and> slept s' = slept s
     \<and> mr' = (mr \<or> (x, d) \<notin> raw_files s)
     \<and> requests s' = requests s @ (if (x, d) \<in> raw_files s then [] else [(x, d)])
     \<and> raw_files s' = raw_files s \<union> (if fetch_ok get zf d x then {(x, d)} else {})
     \<and> consecutive_failures s' =
          (consecutive_failures s)(x := if (x, d) \<in> raw_files s \<or> fetch_ok get zf d x then 0
                                        else consecutive_failures s x + 1)"
proof -
  from fetch_month_data_valid[OF assms] obtain c where
    c: "fetch_month_data get zf (fst d) (snd d) x = Inr c" by blast
  show ?thesis
    using c by (cases c) (auto simp: fetch_series_def fetch_ok_def Let_def)
qed

lemma crawl_month_effect:
  assumes "valid_date (current_date s)" "1 \<le> month_index (current_date s)"
  shows "\<exists>s'. crawl_month get zf s = Inr s'
     \<and> current_date s' = month_before (current_date s)
     \<and> slept s' = slept s + (if \<forall>x. (x, current_date s) \<in> raw_files s then 0 else 10)
     \<and> requests s' = requests s @ filter (\<lambda>p. p \<notin> raw_files s) [(Import, current_date s), (Export, current_date s)]
     \<and> raw_files s' = raw_files s \<union> {(x, current_date s) |x. fetch_ok get zf (current_date s) x}
     \<and> (\<forall>x. consecutive_failures s' x =
          (if (x, current_date s) \<in> raw_files s \<or> fetch_ok get zf (current_date s) x then 0
           else consecutive_failures s x + 1))"
proof -
  let ?d = "current_date s"
  from fetch_series_effect[OF assms(1), of get zf Import s False] obtain s1 m1 where
    s1: "fetch_series get zf ?d Import (s, False) = Inr (s1, m1)"
      "current_date s1 = current_date s" "slept s1 = slept s"
      "m1 = (False \<or> (Import, ?d) \<notin> raw_files s)"
      "requests s1 = requests s @ (if (Import, ?d) \<in> raw_files s then [] else [(Import, ?d)])"
      "raw_files s1 = raw_files s \<union> (if fetch_ok get zf ?d Import then {(Import, ?d)} else {})"
      "consecutive_failures s1 = (consecutive_failures s)(Import := if (Import, ?d) \<in> raw_files s \<or> fetch_ok get zf ?d Import then 0
                                        else consecutive_failures s Import + 1)"
    by blast
  from fetch_series_effect[OF assms(1), of get zf Export s1 m1] obtain s2 m2 where
    s2: "fetch_series get zf ?d Export (s1, m1) = Inr (s2, m2)"
      "current_date s2 = current_date s1" "slept s2 = slept s1"
      "m2 = (m1 \<or> (Export, ?d) \<notin> raw_files s1)"
      "requests s2 = requests s1 @ (if (Export, ?d) \<in> raw_files s1 then [] else [(Export, ?d)])"
      "raw_files s2 = raw_files s1 \<union> (if fetch_ok get zf ?d Export then {(Export, ?d)} else {})"
      "consecutive_failures s2 = (consecutive_failures s1)(Export := if (Export, ?d) \<in> raw_files s1 \<or> fetch_ok get zf ?d Export then 0
                                        else consecutive_failures s1 Export + 1)"
    by blast
  have ex: "(Export, ?d) \<in> raw_files s1 \<longleftrightarrow> (Export, ?d) \<in> raw_files s" using s1(6) by auto
  have all: "(\<forall>x. (x, ?d) \<in> raw_files s) \<longleftrightarrow> (Import, ?d) \<in> raw_files s \<and> (Export, ?d) \<in> raw_files s"
    by (metis series.exhaust)
  have files: "raw_files s2 = raw_files s \<union> {(x, ?d) |x. fetch_ok get zf ?d x}"
  proof -
    have "{(x, ?d) |x. fetch_ok get zf ?d x} = (if fetch_ok get zf ?d Import then {(Import, ?d)} else {}) \<union> (if fetch_ok get zf ?d Export then {(Export, ?d)} else {})"
      by (auto) (metis series.exhaust)+
    then show ?thesis using s1(6) s2(6) by auto
  qed
  have cf: "\<forall>x. consecutive_failures s2 x =
          (if (x, ?d) \<in> raw_files s \<or> fetch_ok get zf ?d x then 0 else consecutive_failures s x + 1)"
  proof
    fix x show "consecutive_failures s2 x =
          (if (x, ?d) \<in> raw_files s \<or> fetch_ok get zf ?d x then 0 else consecutive_failures s x + 1)"
      by (cases x) (simp_all add: s1(7) s2(7) ex)
  qed
  have "crawl_month get zf s = Inr (s2\<lparr>current_date := month_before ?d, slept := slept s2 + (if m2 then 10 else 0)\<rparr>)"
    using s1(1) s2(1) previous_month_ok(1)[OF assms] by (simp add: crawl_month_def Let_def)
  moreover have "m2 \<longleftrightarrow> \<not> (\<forall>x. (x, ?d) \<in> raw_files s)" using s1(4) s2(4) ex all by simp
  ultimately show ?thesis
    using s1(2,3,5) s2(2,3,5) ex files cf by auto
qed

subsection \<open>The loop\<close>

lemma exits_at_Suc:
  assumes "min_failures s < max_consecutive_failures" "crawl_month get zf s = Inr s1" "exits_at get zf n s1 s'"
  shows "exits_at get zf (Suc n) s s'"
  unfolding exits_at_def
proof (intro conjI allI impI)
  show "crawl_iter get zf (Suc n) s = Inr s'" using assms by (simp add: exits_at_def)
  show "max_consecutive_failures \<le> min_failures s'" using assms by (simp add: exits_at_def)
  fix k t assume k: "k < Suc n" "crawl_iter get zf k s = Inr t"
  show "min_failures t < max_consecutive_failures"
  proof (cases k)
    case 0 with k assms show ?thesis by simp
  next
    case (Suc j)
    with k assms have "j < n" "crawl_iter get zf j s1 = Inr t" by auto
    with assms(3) show ?thesis by (auto simp: exits_at_def)
  qed
qed

lemma crawl_loop_exit:
  assumes "crawl_loop get zf s = Some r"
  shows "\<forall>s'. r = Inr s' \<longrightarrow> (\<exists>n. exits_at get zf n s s')"
proof (rule crawl_loop.raw_induct[OF _ assms])
  fix loop get zf s r
  assume IH: "\<And>g z t y. loop g z t = Some y \<Longrightarrow> \<forall>s'. y = Inr s' \<longrightarrow> (\<exists>n. exits_at g z n t s')"
    and eq: "(if min_failures s < max_consecutive_failures
              then case crawl_month get zf s of Inl e \<Rightarrow> Some (Inl e) | Inr s' \<Rightarrow> loop get zf s'
              else Some (Inr s)) = Some r"
  show "\<forall>s'. r = Inr s' \<longrightarrow> (\<exists>n. exits_at get zf n s s')"
  proof (cases "min_failures s < max_consecutive_failures")
    case False
    with eq have "r = Inr s" by simp
    moreover have "exits_at get zf 0 s s" using False by (simp add: exits_at_def)
    ultimately show ?thesis by blast
  next
    case True
    show ?thesis
    proof (cases "crawl_month get zf s")
      case (Inl e)
      with True eq show ?thesis by auto
    next
      case (Inr s1)
      with True eq have "loop get zf s1 = Some r" by simp
      then have "\<forall>s'. r = Inr s' \<longrightarrow> (\<exists>n. exits_at get zf n s1 s')" by (rule IH)
      then show ?thesis using exits_at_Suc[OF True Inr] by blast
    qed
  qed
qed

lemma crawl_loop_iter:
  "exits_at get zf n s s' \<Longrightarrow> crawl_loop get zf s = Some (Inr s')"
proof (induction n arbitrary: s)
  case 0
  then show ?case by (subst crawl_loop.simps) (simp add: exits_at_def)
next
  case (Suc n)
  from Suc.prems have g: "min_failures s < max_consecutive_failures" by (force simp: exits_at_def)
  from Suc.prems obtain s1 where s1: "crawl_month get zf s = Inr s1" "crawl_iter get zf n s1 = Inr s'"
    by (auto simp: exits_at_def split: sum.splits)
  have "exits_at get zf n s1 s'"
    unfolding exits_at_def
  proof (intro conjI allI impI)
    show "crawl_iter get zf n s1 = Inr s'" by (rule s1)
    show "max_consecutive_failures \<le> min_failures s'" using Suc.prems by (simp add: exits_at_def)
    fix k t assume "k < n" "crawl_iter get zf k s1 = Inr t"
    then have "Suc k < Suc n" "crawl_iter get zf (Suc k) s = Inr t" using s1 by auto
    then show "min_failures t < max_consecutive_failures" using Suc.prems unfolding exits_at_def by blast
  qed
  then have "crawl_loop get zf s1 = Some (Inr s')" by (rule Suc.IH)
  then show ?case using g s1 by (subst crawl_loop.simps) simp
qed

lemma crawl_iter_failing:
  assumes "\<forall>d x. \<not> fetch_ok get zf d x"
  shows "raw_files s = {} \<Longrightarrow> valid_date (current_date s) \<Longrightarrow> int n \<le> month_index (current_date s) \<Longrightarrow>
    \<exists>s'. crawl_iter get zf n s = Inr s' \<and> current_date s' = months_back n (current_date s)
       \<and> raw_files s' = {} \<and> requests s' = requests s @ month_requests n (current_date s)
       \<and> (\<forall>x. consecutive_failures s' x = consecutive_failures s x + n)
       \<and> slept s' = slept s + 10 * n"
proof (induction n arbitrary: s)
  case 0
  then show ?case by simp
next
  case (Suc n)
  let ?d = "current_date s"
  have idx: "1 \<le> month_index ?d" using Suc.prems(3) by simp
  from crawl_month_effect[OF Suc.prems(2) idx, of get zf] obtain s1 where
    s1: "crawl_month get zf s = Inr s1" "current_date s1 = month_before ?d"
      "slept s1 = slept s + (if \<forall>x. (x, ?d) \<in> raw_files s then 0 else 10)"
      "requests s1 = requests s @ filter (\<lambda>p. p \<notin> raw_files s) [(Import, ?d), (Export, ?d)]"
      "raw_files s1 = raw_files s \<union> {(x, ?d) |x. fetch_ok get zf ?d x}"
      "\<forall>x. consecutive_failures s1 x =
          (if (x, ?d) \<in> raw_files s \<or> fetch_ok get zf ?d x then 0 else consecutive_failures s x + 1)"
    by blast
  have f1: "raw_files s1 = {}" using s1(5) Suc.prems(1) assms by simp
  have v1: "valid_date (current_date s1)" using previous_month_ok(2)[OF Suc.prems(2) idx] s1(2) by simp
  have i1: "int n \<le> month_index (current_date s1)"
    using previous_month_ok(3)[OF Suc.prems(2) idx] s1(2) Suc.prems(3) by simp
  from Suc.IH[OF f1 v1 i1] obtain s' where
    s': "crawl_iter get zf n s1 = Inr s'" "current_date s' = months_back n (current_date s1)"
      "raw_files s' = {}" "requests s' = requests s1 @ month_requests n (current_date s1)"
      "\<forall>x. consecutive_failures s' x = consecutive_failures s1 x + n"
      "slept s' = slept s1 + 10 * n"
    by blast
  have "crawl_iter get zf (Suc n) s = Inr s'" using s1(1) s'(1) by simp
  moreover have "current_date s' = months_back (Suc n) ?d" using s'(2) s1(2) by simp
  moreover have "requests s' = requests s @ month_requests (Suc n) ?d"
    using s'(4) s1(2,4) Suc.prems(1) by simp
  moreover have "\<forall>x. consecutive_failures s' x = consecutive_failures s x + Suc n"
    using s'(5) s1(6) Suc.prems(1) assms by simp
  moreover have "slept s' = slept s + 10 * Suc n" using s'(6) s1(3) Suc.prems(1) by simp
  ultimately show ?case using s'(3) by blast
qed

lemma crawl_iter_present:
  "valid_date (current_date s) \<Longrightarrow> int n \<le> month_index (current_date s) \<Longrightarrow>
   (\<forall>k<n. \<forall>x. (x, months_back k (current_date s)) \<in> raw_files s) \<Longrightarrow>
    \<exists>s'. crawl_iter get zf n s = Inr s' \<and> current_date s' = months_back n (current_date s)
       \<and> raw_files s' = raw_files s \<and> requests s' = requests s \<and> slept s' = slept s
       \<and> (\<forall>x. consecutive_failures s' x = (if n = 0 then consecutive_failures s x else 0))"
proof (induction n arbitrary: s)
  case 0
  then show ?case by simp
next
  case (Suc n)
  let ?d = "current_date s"
  have idx: "1 \<le> month_index ?d" using Suc.prems(2) by simp
  have here: "\<forall>x. (x, ?d) \<in> raw_files s" using Suc.prems(3)[rule_format, of 0] by simp
  from crawl_month_effect[OF Suc.prems(1) idx, of get zf] obtain s1 where
    s1: "crawl_month get zf s = Inr s1" "current_date s1 = month_before ?d"
      "slept s1 = slept s + (if \<forall>x. (x, ?d) \<in> raw_files s then 0 else 10)"
      "requests s1 = requests s @ filter (\<lambda>p. p \<notin> raw_files s) [(Import, ?d), (Export, ?d)]"
      "raw_files s1 = raw_files s \<union> {(x, ?d) |x. fetch_ok get zf ?d x}"
      "\<forall>x. consecutive_failures s1 x =
          (if (x, ?d) \<in> raw_files s \<or> fetch_ok get zf ?d x then 0 else consecutive_failures s x + 1)"
    by blast
  have f1: "raw_files s1 = raw_files s" using s1(5) here by auto
  have v1: "valid_date (current_date s1)" using previous_month_ok(2)[OF Suc.prems(1) idx] s1(2) by simp
  have i1: "int n \<le> month_index (current_date s1)"
    using previous_month_ok(3)[OF Suc.prems(1) idx] s1(2) Suc.prems(2) by simp
  have p1: "\<forall>k<n. \<forall>x. (x, months_back k (current_date s1)) \<in> raw_files s1"
  proof (intro allI impI)
    fix k x assume "k < n"
    then have "(x, months_back (Suc k) ?d) \<in> raw_files s" using Suc.prems(3) by blast
    then show "(x, months_back k (current_date s1)) \<in> raw_files s1" using f1 s1(2) by simp
  qed
  from Suc.IH[OF v1 i1 p1] obtain s' where
    s': "crawl_iter get zf n s1 = Inr s'" "current_date s' = months_back n (current_date s1)"
      "raw_files s' = raw_files s1" "requests s' = requests s1" "slept s' = slept s1"
      "\<forall>x. consecutive_failures s' x = (if n = 0 then consecutive_failures s1 x else 0)"
    by blast
  have "crawl_iter get zf (Suc n) s = Inr s'" using s1(1) s'(1) by simp
  moreover have "current_date s' = months_back (Suc n) ?d" using s'(2) s1(2) by simp
  moreover have "requests s' = requests s" using s'(4) s1(4) here by simp
  moreover have "\<forall>x. consecutive_failures s' x = 0" using s'(6) s1(6) here by simp
  moreover have "slept s' = slept s" using s'(5) s1(3) here by simp
  ultimately show ?case using s'(3) f1 by simp
qed

lemma month_requests_counts:
  "length (month_requests n d) = 2 * n"
  "length (filter (\<lambda>r. fst r = Import) (month_requests n d)) = n"
  "length (filter (\<lambda>r. fst r = Export) (month_requests n d)) = n"
  by (induction n arbitrary: d) simp_all

lemma all_failing_run:
  assumes fail: "\<forall>y m x c. fetch_month_data get zf y m x \<noteq> Inr (Some c)"
    and today: "valid_date today" "2 \<le> fst today"
  shows "\<exists>t. fetch_main get zf {} today = Some (Inr t)
         \<and> exits_at get zf 5 (initial_state {} (month_before today)) t
         \<and> requests t = month_requests 5 (month_before today)
         \<and> consecutive_failures t Import = 5 \<and> consecutive_failures t Export = 5
         \<and> raw_files t = {}"
proof -
  let ?d = "month_before today"
  let ?s = "initial_state {} ?d"
  have no: "\<forall>d x. \<not> fetch_ok get zf d x"
    using fail by (auto simp: fetch_ok_def split: sum.splits option.splits)
  have idx: "12 \<le> month_index today" using today by (simp add: month_index_def valid_date_def)
  then have i0: "1 \<le> month_index today" by simp
  have pm: "previous_month today = Inr ?d" by (rule previous_month_ok(1)[OF today(1) i0])
  have v: "valid_date (current_date ?s)" using previous_month_ok(2)[OF today(1) i0] by (simp add: initial_state_def)
  have i: "month_index (current_date ?s) \<ge> 11" using previous_month_ok(3)[OF today(1) i0] idx by (simp add: initial_state_def)
  have f: "raw_files ?s = {}" by (simp add: initial_state_def)
  have run: "\<exists>s'. crawl_iter get zf k ?s = Inr s' \<and> current_date s' = months_back k (current_date ?s)
       \<and> raw_files s' = {} \<and> requests s' = requests ?s @ month_requests k (current_date ?s)
       \<and> (\<forall>x. consecutive_failures s' x = consecutive_failures ?s x + k)
       \<and> slept s' = slept ?s + 10 * k" if "k \<le> 5" for k
    using crawl_iter_failing[OF no f v, of k] i that by simp
  from run[of 5] obtain t where
    t: "crawl_iter get zf 5 ?s = Inr t" "raw_files t = {}" "requests t = month_requests 5 ?d"
      "\<forall>x. consecutive_failures t x = 5"
    by (auto simp: initial_state_def)
  have ex: "exits_at get zf 5 ?s t"
    unfolding exits_at_def
  proof (intro conjI allI impI)
    show "crawl_iter get zf 5 ?s = Inr t" by (rule t(1))
    show "max_consecutive_failures \<le> min_failures t" using t(4) by (simp add: max_consecutive_failures_def min_failures_def)
    fix k u assume k: "k < 5" "crawl_iter get zf k ?s = Inr u"
    from run[of k] k have "\<forall>x. consecutive_failures u x = k" by (auto simp: initial_state_def)
    then show "min_failures u < max_consecutive_failures" using k(1) by (simp add: max_consecutive_failures_def min_failures_def)
  qed
  have "fetch_main get zf {} today = Some (Inr t)"
    using crawl_loop_iter[OF ex] pm by (simp add: fetch_main_def)
  then show ?thesis using ex t by auto
qed

lemma skip_resets:
  assumes v: "valid_date (current_date s)" and i: "3 \<le> month_index (current_date s)"
    and here: "(x, current_date s) \<in> raw_files s"
    and a1: "(x, month_before (current_date s)) \<notin> raw_files s"
    and a2: "(x, month_before (month_before (current_date s))) \<notin> raw_files s"
    and f1: "fetch_month_data get zf (fst (month_before (current_date s))) (snd (month_before (current_date s))) x = Inr None"
    and f2: "fetch_month_data get zf (fst (month_before (month_before (current_date s)))) (snd (month_before (month_before (current_date s)))) x = Inr None"
  shows "\<exists>s1 s2 s3. crawl_month get zf s = Inr s1 \<and> crawl_month get zf s1 = Inr s2 \<and> crawl_month get zf s2 = Inr s3
     \<and> consecutive_failures s1 x = 0 \<and> consecutive_failures s2 x = 1 \<and> consecutive_failures s3 x = 2"
proof -
  let ?d = "current_date s"
  let ?d1 = "month_before ?d"
  let ?d2 = "month_before ?d1"
  have n1: "\<not> fetch_ok get zf ?d1 x" using f1 by (simp add: fetch_ok_def)
  have n2: "\<not> fetch_ok get zf ?d2 x" using f2 by (simp add: fetch_ok_def)
  have i0: "1 \<le> month_index ?d" using i by simp
  from crawl_month_effect[OF v i0, of get zf] obtain s1 where
    s1: "crawl_month get zf s = Inr s1" "current_date s1 = ?d1"
      "raw_files s1 = raw_files s \<union> {(y, ?d) |y. fetch_ok get zf ?d y}"
      "\<forall>y. consecutive_failures s1 y =
          (if (y, ?d) \<in> raw_files s \<or> fetch_ok get zf ?d y then 0 else consecutive_failures s y + 1)"
    by blast
  have v1: "valid_date (current_date s1)" using previous_month_ok(2)[OF v i0] s1(2) by simp
  have i1: "1 \<le> month_index (current_date s1)" using previous_month_ok(3)[OF v i0] s1(2) i by simp
  from crawl_month_effect[OF v1 i1, of get zf] s1(2) obtain s2 where
    s2: "crawl_month get zf s1 = Inr s2" "current_date s2 = ?d2"
      "raw_files s2 = raw_files s1 \<union> {(y, ?d1) |y. fetch_ok get zf ?d1 y}"
      "\<forall>y. consecutive_failures s2 y =
          (if (y, ?d1) \<in> raw_files s1 \<or> fetch_ok get zf ?d1 y then 0 else consecutive_failures s1 y + 1)"
    by auto
  have v2: "valid_date (current_date s2)" using previous_month_ok(2)[OF v1 i1] s1(2) s2(2) by simp
  have i2: "1 \<le> month_index (current_date s2)"
    using previous_month_ok(3)[OF v1 i1] previous_month_ok(3)[OF v i0] s1(2) s2(2) i by simp
  from crawl_month_effect[OF v2 i2, of get zf] s2(2) obtain s3 where
    s3: "crawl_month get zf s2 = Inr s3"
      "\<forall>y. consecutive_failures s3 y =
          (if (y, ?d2) \<in> raw_files s2 \<or> fetch_ok get zf ?d2 y then 0 else consecutive_failures s2 y + 1)"
    by auto
  have c1: "consecutive_failures s1 x = 0" using s1(4) here by simp
  have m1: "(x, ?d1) \<notin> raw_files s1" using a1 s1(3) month_before_neq(1)[of ?d] by auto
  have c2: "consecutive_failures s2 x = 1" using s2(4) m1 n1 c1 by simp
  have m2: "(x, ?d2) \<notin> raw_files s2"
    using a2 s1(3) s2(3) month_before_neq(1)[of ?d1] month_before_neq(2)[of ?d] by auto
  have c3: "consecutive_failures s3 x = 2" using s3(2) m2 n2 c2 by simp
  show ?thesis using s1(1) s2(1) s3(1) c1 c2 c3 by blast
qed

subsection \<open>Claims about the fetcher and the crawler\<close>

text \<open>
  C5. For a calendar month (a year in 1..9999 and a month in 1..12, the only dates
  \<^verbatim>\<open>datetime\<close> accepts), \<^verbatim>\<open>fetch_month_data\<close> never raises and returns
  the payload exactly when the four checks pass in order: status 200, at least 4 bytes,
  the leading bytes \<^verbatim>\<open>PK\<close>, and the archive opens. A failure of any one check, a
  transport error or any other exception gives \<^verbatim>\<open>None\<close>.
\<close>

theorem fetch_month_data_validation:
  assumes "valid_date (year, month)"
  shows "(\<exists>r. fetch_month_data get zipfile year month data_type = Inr r)
    \<and> (\<forall>c. fetch_month_data get zipfile year month data_type = Inr (Some c) \<longleftrightarrow>
          (\<exists>status_code. get data_type (year, month) = Response status_code c
             \<and> status_code = 200 \<and> 4 \<le> length c \<and> take 2 c = PK \<and> zipfile c = ZipOpened))
    \<and> (fetch_month_data get zipfile year month data_type = Inr None \<longleftrightarrow>
          \<not> (\<exists>status_code c. get data_type (year, month) = Response status_code c
             \<and> status_code = 200 \<and> 4 \<le> length c \<and> take 2 c = PK \<and> zipfile c = ZipOpened))
    \<and> (\<forall>status_code c. get data_type (year, month) = Response status_code c \<and> status_code \<noteq> 200
          \<longrightarrow> fetch_month_data get zipfile year month data_type = Inr None)
    \<and> (\<forall>c. get data_type (year, month) = Response 200 c \<and> length c < 4
          \<longrightarrow> fetch_month_data get zipfile year month data_type = Inr None)
    \<and> (\<forall>c. get data_type (year, month) = Response 200 c \<and> 4 \<le> length c \<and> take 2 c \<noteq> PK
          \<longrightarrow> fetch_month_data get zipfile year month data_type = Inr None)
    \<and> (\<forall>c. get data_type (year, month) = Response 200 c \<and> 4 \<le> length c \<and> take 2 c = PK
             \<and> zipfile c \<noteq> ZipOpened
          \<longrightarrow> fetch_month_data get zipfile year month data_type = Inr None)
    \<and> (get data_type (year, month) = RequestException \<or> get data_type (year, month) = OtherException
          \<longrightarrow> fetch_month_data get zipfile year month data_type = Inr None)"
proof -
  have eq: "fetch_month_data get zipfile year month data_type =
     Inr (case get data_type (year, month) of
            Response status_code content \<Rightarrow>
              if status_code = 200 \<and> 4 \<le> length content \<and> take 2 content = PK
                 \<and> zipfile content = ZipOpened
              then Some content else None
          | RequestException \<Rightarrow> None
          | OtherException \<Rightarrow> None)"
    using assms
    by (auto simp: fetch_month_data_def datetime_def split: http_outcome.splits zip_outcome.splits)
  show ?thesis
    unfolding eq by (cases "get data_type (year, month)") auto
qed

text \<open>The theorem at November 2021, for a good response and for a 404.\<close>

theorem fetch_month_data_validation_witness:
  "valid_date (2021, 11)
   \<and> fetch_month_data (\<lambda>_ _. Response 200 [0x50, 0x4B, 0x03, 0x04]) (\<lambda>_. ZipOpened) 2021 11 Import
       = Inr (Some [0x50, 0x4B, 0x03, 0x04])
   \<and> fetch_month_data (\<lambda>_ _. Response 404 [0x50, 0x4B, 0x03, 0x04]) (\<lambda>_. ZipOpened) 2021 11 Import
       = Inr None"
proof -
  have v: "valid_date (2021, 11)" by (simp add: valid_date_def)
  have a: "fetch_month_data (\<lambda>_ _. Response 200 [0x50, 0x4B, 0x03, 0x04]) (\<lambda>_. ZipOpened) 2021 11 Import
       = Inr (Some [0x50, 0x4B, 0x03, 0x04])"
    using fetch_month_data_validation[OF v, of "\<lambda>_ _. Response 200 [0x50, 0x4B, 0x03, 0x04]" "\<lambda>_. ZipOpened" Import]
    by (simp add: PK_def)
  have b: "fetch_month_data (\<lambda>_ _. Response 404 [0x50, 0x4B, 0x03, 0x04]) (\<lambda>_. ZipOpened) 2021 11 Import
       = Inr None"
    using fetch_month_data_validation[OF v, of "\<lambda>_ _. Response 404 [0x50, 0x4B, 0x03, 0x04]" "\<lambda>_. ZipOpened" Import]
    by simp
  show ?thesis using v a b by simp
qed

text \<open>
  C1. The loop leaves normally in state \<open>s'\<close> exactly when some number \<open>n\<close> of
  iterations leads to \<open>s'\<close>, the smaller of the two counters is at least 5 there, and
  it was below 5 before each of the \<open>n\<close> iterations. When no fetch ever succeeds and no
  archive is on disk, \<^verbatim>\<open>main\<close>, started in a year from 2 on, leaves the loop after
  exactly five iterations, having issued exactly ten requests, five per series, one for
  each series in each of the five months before today.
\<close>

theorem crawler_stops_at_threshold:
  "(crawl_loop get zipfile s = Some (Inr s') \<longleftrightarrow> (\<exists>n. exits_at get zipfile n s s'))
   \<and> ((\<forall>year month x c. fetch_month_data get zipfile year month x \<noteq> Inr (Some c))
        \<and> valid_date today \<and> 2 \<le> fst today \<longrightarrow>
      (\<exists>t. fetch_main get zipfile {} today = Some (Inr t)
         \<and> exits_at get zipfile 5 (initial_state {} (month_before today)) t
         \<and> requests t = month_requests 5 (month_before today)
         \<and> length (requests t) = 10
         \<and> length (filter (\<lambda>r. fst r = Import) (requests t)) = 5
         \<and> length (filter (\<lambda>r. fst r = Export) (requests t)) = 5
         \<and> consecutive_failures t Import = 5 \<and> consecutive_failures t Export = 5
         \<and> raw_files t = {}))"
proof (intro conjI impI)
  show "crawl_loop get zipfile s = Some (Inr s') \<longleftrightarrow> (\<exists>n. exits_at get zipfile n s s')"
    using crawl_loop_exit[of get zipfile s "Inr s'"] crawl_loop_iter[of get zipfile _ s s'] by blast
next
  assume h: "(\<forall>year month x c. fetch_month_data get zipfile year month x \<noteq> Inr (Some c))
        \<and> valid_date today \<and> 2 \<le> fst today"
  then obtain t where t: "fetch_main get zipfile {} today = Some (Inr t)"
      "exits_at get zipfile 5 (initial_state {} (month_before today)) t"
      "requests t = month_requests 5 (month_before today)"
      "consecutive_failures t Import = 5" "consecutive_failures t Export = 5" "raw_files t = {}"
    using all_failing_run[of get zipfile today] by blast
  show "\<exists>t. fetch_main get zipfile {} today = Some (Inr t)
         \<and> exits_at get zipfile 5 (initial_state {} (month_before today)) t
         \<and> requests t = month_requests 5 (month_before today)
         \<and> length (requests t) = 10
         \<and> length (filter (\<lambda>r. fst r = Import) (requests t)) = 5
         \<and> length (filter (\<lambda>r. fst r = Export) (requests t)) = 5
         \<and> consecutive_failures t Import = 5 \<and> consecutive_failures t Export = 5
         \<and> raw_files t = {}"
    using t by (auto simp: month_requests_counts)
qed

text \<open>The theorem for a network that is down, started in March 2022.\<close>

theorem crawler_stops_at_threshold_witness:
  "\<exists>t. fetch_main (\<lambda>_ _. RequestException) (\<lambda>_. BadZipFile) {} (2022, 3) = Some (Inr t)
     \<and> requests t =
         [(Import, (2022, 2)), (Export, (2022, 2)), (Import, (2022, 1)), (Export, (2022, 1)),
          (Import, (2021, 12)), (Export, (2021, 12)), (Import, (2021, 11)), (Export, (2021, 11)),
          (Import, (2021, 10)), (Export, (2021, 10))]
     \<and> length (requests t) = 10
     \<and> consecutive_failures t Import = 5 \<and> consecutive_failures t Export = 5"
proof -
  have h: "(\<forall>year month x c.
             fetch_month_data (\<lambda>_ _. RequestException) (\<lambda>_. BadZipFile) year month x \<noteq> Inr (Some c))
           \<and> valid_date (2022, 3) \<and> 2 \<le> fst ((2022, 3) :: date)"
    by (simp add: fetch_month_data_def valid_date_def split: sum.splits)
  have m: "month_requests 5 (month_before (2022, 3)) =
         [(Import, (2022, 2)), (Export, (2022, 2)), (Import, (2022, 1)), (Export, (2022, 1)),
          (Import, (2021, 12)), (Export, (2021, 12)), (Import, (2021, 11)), (Export, (2021, 11)),
          (Import, (2021, 10)), (Export, (2021, 10))]"
    by (simp add: eval_nat_numeral month_before_def)
  show ?thesis
    using crawler_stops_at_threshold[of "\<lambda>_ _. RequestException" "\<lambda>_. BadZipFile"
        "initial_state {} (2022, 2)" "initial_state {} (2022, 2)" "(2022, 3)"] h m
    by auto
qed

text \<open>
  C4. When the archive of a series for the month is on disk, the step for that series
  issues no request, leaves the request flag alone and sets the counter of the series to
  0. Over \<open>n\<close> months whose two archives are all on disk the loop body issues no
  request, never sleeps, and both counters are 0 after each of these months. When the
  archive of month \<open>M\<close> is on disk and the fetches of the two months before fail, the
  counter of the series is 0, then 1, then 2, whatever it was before.
\<close>

theorem existing_artifact_resets_counter:
  "((x, d) \<in> raw_files s \<longrightarrow>
      fetch_series get zipfile d x (s, made_request) =
        Inr (s\<lparr>consecutive_failures := (consecutive_failures s)(x := 0)\<rparr>, made_request))
   \<and> (valid_date (current_date s) \<and> int n \<le> month_index (current_date s)
        \<and> (\<forall>k<n. \<forall>y. (y, months_back k (current_date s)) \<in> raw_files s) \<longrightarrow>
      (\<forall>k\<le>n. \<exists>t. crawl_iter get zipfile k s = Inr t
          \<and> requests t = requests s \<and> slept t = slept s \<and> raw_files t = raw_files s
          \<and> current_date t = months_back k (current_date s)
          \<and> (\<forall>y. consecutive_failures t y = (if k = 0 then consecutive_failures s y else 0))))
   \<and> (valid_date (current_date s) \<and> 3 \<le> month_index (current_date s)
        \<and> (x, current_date s) \<in> raw_files s
        \<and> (x, month_before (current_date s)) \<notin> raw_files s
        \<and> (x, month_before (month_before (current_date s))) \<notin> raw_files s
        \<and> fetch_month_data get zipfile (fst (month_before (current_date s)))
              (snd (month_before (current_date s))) x = Inr None
        \<and> fetch_month_data get zipfile (fst (month_before (month_before (current_date s))))
              (snd (month_before (month_before (current_date s)))) x = Inr None \<longrightarrow>
      (\<exists>s1 s2 s3. crawl_month get zipfile s = Inr s1 \<and> crawl_month get zipfile s1 = Inr s2
          \<and> crawl_month get zipfile s2 = Inr s3
          \<and> consecutive_failures s1 x = 0 \<and> consecutive_failures s2 x = 1
          \<and> consecutive_failures s3 x = 2))"
proof (intro conjI impI allI)
  assume "(x, d) \<in> raw_files s"
  then show "fetch_series get zipfile d x (s, made_request) =
        Inr (s\<lparr>consecutive_failures := (consecutive_failures s)(x := 0)\<rparr>, made_request)"
    by (simp add: fetch_series_def)
next
  fix k
  assume h: "valid_date (current_date s) \<and> int n \<le> month_index (current_date s)
        \<and> (\<forall>k<n. \<forall>y. (y, months_back k (current_date s)) \<in> raw_files s)"
    and k: "k \<le> n"
  from h k have "int k \<le> month_index (current_date s)"
    "\<forall>j<k. \<forall>y. (y, months_back j (current_date s)) \<in> raw_files s" by auto
  with h show "\<exists>t. crawl_iter get zipfile k s = Inr t
          \<and> requests t = requests s \<and> slept t = slept s \<and> raw_files t = raw_files s
          \<and> current_date t = months_back k (current_date s)
          \<and> (\<forall>y. consecutive_failures t y = (if k = 0 then consecutive_failures s y else 0))"
    using crawl_iter_present[of s k get zipfile] by blast
next
  assume "valid_date (current_date s) \<and> 3 \<le> month_index (current_date s)
        \<and> (x, current_date s) \<in> raw_files s
        \<and> (x, month_before (current_date s)) \<notin> raw_files s
        \<and> (x, month_before (month_before (current_date s))) \<notin> raw_files s
        \<and> fetch_month_data get zipfile (fst (month_before (current_date s)))
              (snd (month_before (current_date s))) x = Inr None
        \<and> fetch_month_data get zipfile (fst (month_before (month_before (current_date s))))
              (snd (month_before (month_before (current_date s)))) x = Inr None"
  then show "\<exists>s1 s2 s3. crawl_month get zipfile s = Inr s1 \<and> crawl_month get zipfile s1 = Inr s2
          \<and> crawl_month get zipfile s2 = Inr s3
          \<and> consecutive_failures s1 x = 0 \<and> consecutive_failures s2 x = 1
          \<and> consecutive_failures s3 x = 2"
    using skip_resets[of s x get zipfile] by blast
qed

text \<open>The theorem for a state whose counters stand at 3 and whose only archives are those of November 2021.\<close>

theorem existing_artifact_resets_counter_witness:
  "fetch_series (\<lambda>_ _. RequestException) (\<lambda>_. BadZipFile) (2021, 11) Import (example_state, False) =
     Inr (example_state\<lparr>consecutive_failures := (consecutive_failures example_state)(Import := 0)\<rparr>, False)
   \<and> (\<exists>t. crawl_iter (\<lambda>_ _. RequestException) (\<lambda>_. BadZipFile) 1 example_state = Inr t
          \<and> requests t = [] \<and> slept t = 0
          \<and> consecutive_failures t Import = 0 \<and> consecutive_failures t Export = 0)
   \<and> (\<exists>s1 s2 s3.
          crawl_month (\<lambda>_ _. RequestException) (\<lambda>_. BadZipFile) example_state = Inr s1
        \<and> crawl_month (\<lambda>_ _. RequestException) (\<lambda>_. BadZipFile) s1 = Inr s2
        \<and> crawl_month (\<lambda>_ _. RequestException) (\<lambda>_. BadZipFile) s2 = Inr s3
        \<and> consecutive_failures s1 Import = 0 \<and> consecutive_failures s2 Import = 1
        \<and> consecutive_failures s3 Import = 2)"
proof -
  let ?g = "\<lambda>(_::series) (_::date). RequestException"
  let ?z = "\<lambda>(_::bytes). BadZipFile"
  note T = existing_artifact_resets_counter[of Import "(2021, 11)" example_state ?g ?z False 1]
  have h1: "(Import, (2021, 11)) \<in> raw_files example_state" by (simp add: example_state_def)
  have h2: "valid_date (current_date example_state) \<and> int 1 \<le> month_index (current_date example_state)
        \<and> (\<forall>k<1. \<forall>y. (y, months_back k (current_date example_state)) \<in> raw_files example_state)"
  proof -
    have "y = Import \<or> y = Export" for y by (cases y) simp_all
    then show ?thesis by (auto simp: example_state_def valid_date_def month_index_def)
  qed
  have h3: "valid_date (current_date example_state) \<and> 3 \<le> month_index (current_date example_state)
        \<and> (Import, current_date example_state) \<in> raw_files example_state
        \<and> (Import, month_before (current_date example_state)) \<notin> raw_files example_state
        \<and> (Import, month_before (month_before (current_date example_state))) \<notin> raw_files example_state
        \<and> fetch_month_data ?g ?z (fst (month_before (current_date example_state)))
              (snd (month_before (current_date example_state))) Import = Inr None
        \<and> fetch_month_data ?g ?z (fst (month_before (month_before (current_date example_state))))
              (snd (month_before (month_before (current_date example_state)))) Import = Inr None"
    by (simp add: example_state_def valid_date_def month_index_def month_before_def
        fetch_month_data_def datetime_def)
  have c1: "fetch_series ?g ?z (2021, 11) Import (example_state, False) =
     Inr (example_state\<lparr>consecutive_failures := (consecutive_failures example_state)(Import := 0)\<rparr>, False)"
    using T h1 by blast
  have "\<forall>k\<le>1. \<exists>t. crawl_iter ?g ?z k example_state = Inr t
          \<and> requests t = requests example_state \<and> slept t = slept example_state
          \<and> raw_files t = raw_files example_state
          \<and> current_date t = months_back k (current_date example_state)
          \<and> (\<forall>y. consecutive_failures t y = (if k = 0 then consecutive_failures example_state y else 0))"
    using T h2 by blast
  then have "\<exists>t. crawl_iter ?g ?z 1 example_state = Inr t
          \<and> requests t = requests example_state \<and> slept t = slept example_state
          \<and> raw_files t = raw_files example_state
          \<and> current_date t = months_back 1 (current_date example_state)
          \<and> (\<forall>y. consecutive_failures t y = (if (1::nat) = 0 then consecutive_failures example_state y else 0))"
    by blast
  then have c2: "\<exists>t. crawl_iter ?g ?z 1 example_state = Inr t
          \<and> requests t = [] \<and> slept t = 0
          \<and> consecutive_failures t Import = 0 \<and> consecutive_failures t Export = 0"
    by (auto simp: example_state_def)
  have c3: "\<exists>s1 s2 s3. crawl_month ?g ?z example_state = Inr s1 \<and> crawl_month ?g ?z s1 = Inr s2
          \<and> crawl_month ?g ?z s2 = Inr s3
          \<and> consecutive_failures s1 Import = 0 \<and> consecutive_failures s2 Import = 1
          \<and> consecutive_failures s3 Import = 2"
    using T h3 by blast
  show ?thesis using c1 c2 c3 by blast
qed

section \<open>Properties of parse.py\<close>

subsection \<open>Text and the two polars operations\<close>

lemma remdups_contract: "unique_contract remdups"
  by (simp add: unique_contract_def)

lemma sort_key_contract: "sort_contract (sort_key sort_columns)"
  by (simp add: sort_contract_def)

lemma strip_chars_empty: "strip_chars s = [] \<longleftrightarrow> (\<forall>c\<in>set s. is_whitespace c)"
proof
  assume "strip_chars s = []"
  then have a: "\<forall>x\<in>set (dropWhile is_whitespace s). is_whitespace x"
    by (simp add: strip_chars_def dropWhile_eq_Nil_conv)
  have "dropWhile is_whitespace s = []"
  proof (rule ccontr)
    assume n: "dropWhile is_whitespace s \<noteq> []"
    then have "\<not> is_whitespace (hd (dropWhile is_whitespace s))" by (rule hd_dropWhile)
    moreover have "hd (dropWhile is_whitespace s) \<in> set (dropWhile is_whitespace s)" using n by simp
    ultimately show False using a by blast
  qed
  then show "\<forall>c\<in>set s. is_whitespace c" by (simp add: dropWhile_eq_Nil_conv)
next
  assume "\<forall>c\<in>set s. is_whitespace c"
  then have "dropWhile is_whitespace s = []" by (simp add: dropWhile_eq_Nil_conv)
  then show "strip_chars s = []" by (simp add: strip_chars_def del: dropWhile_eq_Nil_conv)
qed

lemma lower_char_n: "lower_char c = CHR ''n'' \<longleftrightarrow> c = CHR ''n'' \<or> c = CHR ''N''"
  by (simp add: lower_char_def) 

lemma lower_char_a: "lower_char c = CHR ''a'' \<longleftrightarrow> c = CHR ''a'' \<or> c = CHR ''A''"
  by (simp add: lower_char_def) 

lemma to_lowercase_nan: "to_lowercase s = ''nan'' \<longleftrightarrow> s \<in> set nan_spellings"
proof -
  have "to_lowercase s = ''nan'' \<longleftrightarrow>
      (\<exists>a b c. s = [a, b, c] \<and> lower_char a = CHR ''n'' \<and> lower_char b = CHR ''a'' \<and> lower_char c = CHR ''n'')"
    by (auto simp: to_lowercase_def map_eq_Cons_conv)
  also have "\<dots> \<longleftrightarrow> s \<in> set nan_spellings"
    unfolding lower_char_n lower_char_a by (auto simp: nan_spellings_def)
  finally show ?thesis .
qed

lemma all_zero_null_or_zero:
  "all_zero r \<longleftrightarrow> null_or_zero (Quantity r) \<and> null_or_zero (INR_Value r) \<and> null_or_zero (USD_Value r)"
  by (auto simp: all_zero_def null_or_zero_def fill_null_def split: option.splits)

lemma is_whitespace_iff: "is_whitespace c \<longleftrightarrow> c \<in> set white_space"
  by (simp add: is_whitespace_def white_space_def)

lemma unit_is_blank_iff: "unit_is_blank u \<longleftrightarrow> blank_unit u"
  by (cases u)
    (simp_all add: unit_is_blank_def blank_unit_def strip_chars_empty to_lowercase_nan
      is_whitespace_iff)

lemma with_columns_numeric:
  "Quantity (with_columns r) = Quantity r" "INR_Value (with_columns r) = INR_Value r"
  "USD_Value (with_columns r) = USD_Value r"
  by (simp_all add: with_columns_def)

subsection \<open>What \<^verbatim>\<open>clean_data\<close> returns\<close>

lemma set_clean_data:
  assumes "unique_contract unique" "sort_contract sort_rows"
  shows "set (clean_data unique sort_rows df) = with_columns ` {r \<in> set df. \<not> all_zero r}"
proof -
  have z: "all_zero (with_columns r) = all_zero r" for r
    by (simp add: all_zero_def with_columns_def)
  have "mset (clean_data unique sort_rows df) =
          mset (filter (\<lambda>r. \<not> all_zero r) (map with_columns (unique df)))"
    using assms(2) by (simp add: clean_data_def sort_contract_def)
  then have "set (clean_data unique sort_rows df) =
          set (filter (\<lambda>r. \<not> all_zero r) (map with_columns (unique df)))"
    by (rule mset_eq_setD)
  also have "\<dots> = {r \<in> with_columns ` set df. \<not> all_zero r}"
    using assms(1) by (simp add: unique_contract_def)
  also have "\<dots> = with_columns ` {r \<in> set df. \<not> all_zero r}"
    using z by auto
  finally show ?thesis .
qed

lemma mset_clean_data:
  assumes "unique_contract unique" "sort_contract sort_rows"
  shows "mset (clean_data unique sort_rows df) =
           filter_mset (\<lambda>r. \<not> all_zero r) (image_mset with_columns (mset_set (set df)))"
proof -
  have "mset (unique df) = mset_set (set df)"
    using assms(1) by (metis unique_contract_def mset_set_set)
  then show ?thesis
    using assms(2) by (simp add: clean_data_def sort_contract_def)
qed

lemma sorted_clean_data:
  assumes "sort_contract sort_rows"
  shows "sorted (map sort_columns (clean_data unique sort_rows df))"
  using assms by (simp add: clean_data_def sort_contract_def)

lemma set_concat_mset:
  assumes "mset xs = mset ys"
  shows "set (concat xs) = set (concat ys)"
  using mset_eq_setD[OF assms] by simp

lemma duplicate_rows_general:
  assumes "unique_contract unique" "sort_contract sort_rows"
  shows "clean_data unique sort_rows blank_unit_pair =
           [rice\<lparr>Unit := Some ''N/A''\<rparr>, rice\<lparr>Unit := Some ''N/A''\<rparr>]"
proof -
  let ?x = "rice\<lparr>Unit := Some ''N/A''\<rparr>"
  have ne: "rice\<lparr>Unit := Some []\<rparr> \<noteq> ?x" by (simp add: rice_def)
  have "mset (clean_data unique sort_rows blank_unit_pair) = {#?x, ?x#}"
    unfolding mset_clean_data[OF assms] using ne
    by (simp add: blank_unit_pair_def with_columns_def unit_is_blank_def strip_chars_def
        to_lowercase_def lower_char_def is_whitespace_def all_zero_def fill_null_def rice_def)
  then have m: "mset (clean_data unique sort_rows blank_unit_pair) = mset [?x, ?x]" by simp
  then have l: "length (clean_data unique sort_rows blank_unit_pair) = 2"
    using mset_eq_length by fastforce
  have s: "set (clean_data unique sort_rows blank_unit_pair) = {?x}"
    using mset_eq_setD[OF m] by simp
  from l obtain a b where ab: "clean_data unique sort_rows blank_unit_pair = [a, b]"
    by (auto simp: length_Suc_conv numeral_2_eq_2)
  with s show ?thesis by auto
qed

subsection \<open>Claims about cleaning\<close>

text \<open>
  C3. The rows of the cleaned table are exactly the input rows, with the unit
  normalised, whose quantity, INR value and USD value are not all null or zero: a row of
  the input survives if and only if one of the three is a non-zero number. A row with
  quantity 0, INR value null and USD value 0 is dropped; a row with quantity 0, INR value
  0 and USD value 5 is kept.
\<close>

theorem clean_data_discards_all_zero:
  assumes "unique_contract unique" "sort_contract sort_rows"
  shows "(\<forall>r'. r' \<in> set (clean_data unique sort_rows df) \<longleftrightarrow>
            (\<exists>r\<in>set df. r' = with_columns r
               \<and> \<not> (null_or_zero (Quantity r) \<and> null_or_zero (INR_Value r) \<and> null_or_zero (USD_Value r))))
    \<and> (\<forall>r\<in>set df. with_columns r \<in> set (clean_data unique sort_rows df) \<longleftrightarrow>
            \<not> (null_or_zero (Quantity r) \<and> null_or_zero (INR_Value r) \<and> null_or_zero (USD_Value r)))
    \<and> (\<forall>r\<in>set df. Quantity r = Some 0 \<and> INR_Value r = None \<and> USD_Value r = Some 0 \<longrightarrow>
            with_columns r \<notin> set (clean_data unique sort_rows df))
    \<and> (\<forall>r\<in>set df. Quantity r = Some 0 \<and> INR_Value r = Some 0 \<and> USD_Value r = Some 5 \<longrightarrow>
            with_columns r \<in> set (clean_data unique sort_rows df))"
proof -
  let ?out = "set (clean_data unique sort_rows df)"
  let ?deg = "\<lambda>r. null_or_zero (Quantity r) \<and> null_or_zero (INR_Value r) \<and> null_or_zero (USD_Value r)"
  have out: "?out = with_columns ` {r \<in> set df. \<not> ?deg r}"
    using set_clean_data[OF assms] by (simp add: all_zero_null_or_zero)
  have a: "\<forall>r'. r' \<in> ?out \<longleftrightarrow> (\<exists>r\<in>set df. r' = with_columns r \<and> \<not> ?deg r)"
    unfolding out by blast
  have b: "with_columns r \<in> ?out \<longleftrightarrow> \<not> ?deg r" if "r \<in> set df" for r
  proof
    assume "with_columns r \<in> ?out"
    then obtain r2 where "with_columns r = with_columns r2" "\<not> ?deg r2" unfolding out by blast
    then show "\<not> ?deg r" by (metis with_columns_numeric)
  next
    assume "\<not> ?deg r"
    then show "with_columns r \<in> ?out" unfolding out using that by blast
  qed
  have c: "with_columns r \<notin> ?out"
    if "r \<in> set df" "Quantity r = Some 0 \<and> INR_Value r = None \<and> USD_Value r = Some 0" for r
    using b[OF that(1)] that(2) by (simp add: null_or_zero_def)
  have d: "with_columns r \<in> ?out"
    if "r \<in> set df" "Quantity r = Some 0 \<and> INR_Value r = Some 0 \<and> USD_Value r = Some 5" for r
    using b[OF that(1)] that(2) by (simp add: null_or_zero_def)
  show ?thesis using a b c d by blast
qed

text \<open>The theorem on the two rows of the example.\<close>

theorem clean_data_discards_all_zero_witness:
  "with_columns (rice\<lparr>Quantity := Some 0, INR_Value := None, USD_Value := Some 0\<rparr>)
      \<notin> set (clean_data remdups (sort_key sort_columns) zero_rows)
   \<and> with_columns (rice\<lparr>Quantity := Some 0, INR_Value := Some 0, USD_Value := Some 5\<rparr>)
      \<in> set (clean_data remdups (sort_key sort_columns) zero_rows)"
proof -
  let ?a = "rice\<lparr>Quantity := Some 0, INR_Value := None, USD_Value := Some 0\<rparr>"
  let ?b = "rice\<lparr>Quantity := Some 0, INR_Value := Some 0, USD_Value := Some 5\<rparr>"
  note T = clean_data_discards_all_zero[OF remdups_contract sort_key_contract, of zero_rows]
  have a: "?a \<in> set zero_rows" "Quantity ?a = Some 0 \<and> INR_Value ?a = None \<and> USD_Value ?a = Some 0"
    by (simp_all add: zero_rows_def)
  have b: "?b \<in> set zero_rows" "Quantity ?b = Some 0 \<and> INR_Value ?b = Some 0 \<and> USD_Value ?b = Some 5"
    by (simp_all add: zero_rows_def)
  from T a have "with_columns ?a \<notin> set (clean_data remdups (sort_key sort_columns) zero_rows)"
    by blast
  moreover from T b have "with_columns ?b \<in> set (clean_data remdups (sort_key sort_columns) zero_rows)"
    by blast
  ultimately show ?thesis by simp
qed

text \<open>
  C8. The cleaned table holds the surviving rows with the unit replaced by
  \<^verbatim>\<open>N/A\<close> when it was null, blank, white space only or a spelling of nan, and
  with the unit unchanged otherwise; no row of the cleaned table has such a unit. White
  space is what polars strips, which includes the no-break space and the next-line
  character.
\<close>

theorem clean_data_unit_default:
  assumes "unique_contract unique" "sort_contract sort_rows"
  shows "set (clean_data unique sort_rows df) =
           (\<lambda>r. r\<lparr>Unit := (if blank_unit (Unit r) then Some ''N/A'' else Unit r)\<rparr>)
             ` {r \<in> set df. \<not> all_zero r}
         \<and> (\<forall>r'\<in>set (clean_data unique sort_rows df). \<not> blank_unit (Unit r'))"
proof -
  have w: "with_columns = (\<lambda>r. r\<lparr>Unit := (if blank_unit (Unit r) then Some ''N/A'' else Unit r)\<rparr>)"
    by (rule ext) (simp add: with_columns_def unit_is_blank_iff)
  have na: "\<not> blank_unit (Some ''N/A'')"
    by (simp add: blank_unit_def white_space_def nan_spellings_def)
  have "\<not> blank_unit (Unit (with_columns r))" for r
    using na by (simp add: with_columns_def unit_is_blank_iff)
  then show ?thesis
    using set_clean_data[OF assms, of df] unfolding w[symmetric] by auto
qed

text \<open>
  The theorem on a blank unit, a unit NaN, a null unit, a unit made of a no-break space
  and a next-line character, and a unit KGS.
\<close>

theorem clean_data_unit_default_witness:
  "set (clean_data remdups (sort_key sort_columns) unit_rows) =
     {rice\<lparr>Unit := Some ''N/A''\<rparr>, rice\<lparr>Port := ''MUMBAI'', Unit := Some ''N/A''\<rparr>,
      rice\<lparr>Port := ''CHENNAI'', Unit := Some ''N/A''\<rparr>,
      rice\<lparr>Port := ''KANDLA'', Unit := Some ''N/A''\<rparr>, wheat}"
proof -
  have b1: "blank_unit (Some '' '')" by (simp add: blank_unit_def white_space_def)
  have b5: "blank_unit (Some [CHR 0xA0, CHR 0x85])" by (simp add: blank_unit_def white_space_def)
  have b2: "blank_unit (Some ''NaN'')" by (simp add: blank_unit_def nan_spellings_def)
  have b3: "blank_unit None" by (simp add: blank_unit_def)
  have b4: "\<not> blank_unit (Some ''KGS'')"
    by (simp add: blank_unit_def nan_spellings_def white_space_def)
  have nz: "\<not> all_zero (rice\<lparr>Port := p, Unit := u\<rparr>)" "\<not> all_zero (rice\<lparr>Unit := u\<rparr>)"
    "\<not> all_zero wheat" for u p
    by (simp_all add: all_zero_def fill_null_def rice_def wheat_def)
  have keep: "{r \<in> set unit_rows. \<not> all_zero r} = set unit_rows"
    using nz by (auto simp: unit_rows_def)
  have units: "Unit (rice\<lparr>Unit := u\<rparr>) = u" "Unit (rice\<lparr>Port := p, Unit := u\<rparr>) = u"
    "Unit wheat = Some ''KGS''" for u p
    by (simp_all add: rice_def wheat_def)
  have w: "wheat\<lparr>Unit := Some ''KGS''\<rparr> = wheat" by (simp add: rice_def wheat_def)
  show ?thesis
    using clean_data_unit_default[OF remdups_contract sort_key_contract, of unit_rows]
    unfolding keep
    by (simp add: unit_rows_def units b1 b2 b3 b4 b5 w)
qed

text \<open>
  C6. The rows are removed as duplicates before the unit is normalised, so two rows that
  differ only in a blank unit against \<^verbatim>\<open>N/A\<close> both survive and come out
  identical: on this input the cleaned table is not free of duplicates.
\<close>

theorem clean_data_duplicate_rows:
  "clean_data remdups (sort_key sort_columns) blank_unit_pair =
     [rice\<lparr>Unit := Some ''N/A''\<rparr>, rice\<lparr>Unit := Some ''N/A''\<rparr>]
   \<and> \<not> distinct (clean_data remdups (sort_key sort_columns) blank_unit_pair)
   \<and> distinct blank_unit_pair"
proof -
  have "clean_data remdups (sort_key sort_columns) blank_unit_pair =
     [rice\<lparr>Unit := Some ''N/A''\<rparr>, rice\<lparr>Unit := Some ''N/A''\<rparr>]"
    by (rule duplicate_rows_general[OF remdups_contract sort_key_contract])
  moreover have "distinct blank_unit_pair" by (simp add: blank_unit_pair_def rice_def)
  ultimately show ?thesis by simp
qed

text \<open>
  C9 as stated fails: two batches whose rows share the sort columns and differ in the
  quantity come out in the order in which the batches were concatenated, under a
  duplicate removal and a sort that polars' contract allows.
\<close>

theorem clean_batches_order_counterexample:
  "clean_batches remdups (sort_key sort_columns) (rev tied_batches)
     \<noteq> clean_batches remdups (sort_key sort_columns) tied_batches"
  by (simp add: tied_batches_def clean_batches_def clean_data_def with_columns_def unit_is_blank_def
      strip_chars_def to_lowercase_def lower_char_def is_whitespace_def all_zero_def fill_null_def
      sort_columns_def rice_def)

text \<open>
  C9, amended. For every permutation of the batches, and whatever order polars gives to
  distinct rows and to rows with equal keys, the run produces output for the one if and
  only if for the other, the two cleaned tables hold the same rows with the same
  multiplicities, both are sorted by the sort columns, and they are the same sequence of
  rows whenever no two rows of the result share the sort columns.
\<close>

theorem clean_batches_permutation:
  assumes "unique_contract unique1" "sort_contract sort_rows1"
    and "unique_contract unique2" "sort_contract sort_rows2"
    and "mset results' = mset results"
  shows "(clean_batches unique1 sort_rows1 results' = None \<longleftrightarrow>
          clean_batches unique2 sort_rows2 results = None)
    \<and> (\<forall>out' out. clean_batches unique1 sort_rows1 results' = Some out'
           \<and> clean_batches unique2 sort_rows2 results = Some out \<longrightarrow>
         mset out' = mset out
         \<and> sorted (map sort_columns out') \<and> sorted (map sort_columns out)
         \<and> (inj_on sort_columns (set out) \<longrightarrow> out' = out))"
proof -
  let ?ne = "\<lambda>df::dataframe. df \<noteq> []"
  have f: "mset (filter ?ne results') = mset (filter ?ne results)"
    using assms(5) by (metis mset_filter)
  then have e: "filter ?ne results' = [] \<longleftrightarrow> filter ?ne results = []"
    by (metis mset_zero_iff)
  have c: "set (concat (filter ?ne results')) = set (concat (filter ?ne results))"
    by (rule set_concat_mset[OF f])
  have none: "clean_batches unique1 sort_rows1 results' = None \<longleftrightarrow>
          clean_batches unique2 sort_rows2 results = None"
    using e by (simp add: clean_batches_def Let_def)
  have some: "mset out' = mset out
         \<and> sorted (map sort_columns out') \<and> sorted (map sort_columns out)
         \<and> (inj_on sort_columns (set out) \<longrightarrow> out' = out)"
    if h: "clean_batches unique1 sort_rows1 results' = Some out'
           \<and> clean_batches unique2 sort_rows2 results = Some out" for out' out
  proof -
    from h have o': "out' = clean_data unique1 sort_rows1 (concat (filter ?ne results'))"
      and o: "out = clean_data unique2 sort_rows2 (concat (filter ?ne results))"
      by (auto simp: clean_batches_def Let_def split: if_splits)
    have m: "mset out' = mset out"
      unfolding o o' mset_clean_data[OF assms(1,2)] mset_clean_data[OF assms(3,4)] c ..
    have s': "sorted (map sort_columns out')" unfolding o' by (rule sorted_clean_data[OF assms(2)])
    have s: "sorted (map sort_columns out)" unfolding o by (rule sorted_clean_data[OF assms(4)])
    have "out' = out" if inj: "inj_on sort_columns (set out)"
    proof -
      have "sort_key sort_columns out = out'"
        using m inj s' by (intro sort_key_inj_key_eq) simp_all
      moreover have "sort_key sort_columns out = out"
        using inj s by (intro sort_key_inj_key_eq) simp_all
      ultimately show ?thesis by simp
    qed
    with m s s' show ?thesis by blast
  qed
  show ?thesis using none some by blast
qed

text \<open>The theorem on three batches and their reversal.\<close>

theorem clean_batches_permutation_witness:
  "clean_batches remdups (sort_key sort_columns) (rev keyed_batches) = Some [rice, wheat]
   \<and> clean_batches remdups (sort_key sort_columns) keyed_batches = Some [rice, wheat]"
proof -
  let ?u = "remdups :: dataframe \<Rightarrow> dataframe"
  let ?s = "sort_key sort_columns"
  note T = clean_batches_permutation[OF remdups_contract sort_key_contract remdups_contract
      sort_key_contract, of "rev keyed_batches" keyed_batches]
  have p: "mset (rev keyed_batches) = mset keyed_batches" by simp
  have o: "clean_batches ?u ?s keyed_batches = Some [rice, wheat]"
    by (simp add: keyed_batches_def clean_batches_def clean_data_def with_columns_def
        unit_is_blank_def strip_chars_def to_lowercase_def lower_char_def is_whitespace_def
        all_zero_def fill_null_def sort_columns_def rice_def wheat_def)
  have i: "inj_on sort_columns (set [rice, wheat])"
    by (simp add: sort_columns_def rice_def wheat_def)
  from T[OF p] o obtain out' where o': "clean_batches ?u ?s (rev keyed_batches) = Some out'"
    by (cases "clean_batches ?u ?s (rev keyed_batches)") auto
  with T[OF p] o i have "out' = [rice, wheat]" by blast
  with o o' show ?thesis by simp
qed

subsection \<open>The header scan\<close>

lemma scan_header_snoc:
  "scan_header i (xs @ [v]) ind = assign_column (i + length xs) v (scan_header i xs ind)"
  by (induction xs arbitrary: i ind) simp_all

lemma scan_header_append:
  "scan_header i (xs @ ys) ind = scan_header (i + length xs) ys (scan_header i xs ind)"
  by (induction xs arbitrary: i ind) simp_all

lemma find_column_indices_snoc:
  "find_column_indices (xs @ [v]) = assign_column (length xs) v (find_column_indices xs)"
  by (simp add: find_column_indices_def scan_header_snoc)

lemma find_column_indices_Nil: "find_column_indices [] = no_indices"
  by (simp add: find_column_indices_def)


lemma first_from_bound: "first_from i P xs = Some j \<Longrightarrow> i \<le> j \<and> j < i + length xs"
  by (induction xs arbitrary: i) (fastforce split: if_splits)+




lemma first_index_bound: "first_index P xs = Some j \<Longrightarrow> j < length xs"
  using first_from_bound[of 0 P xs j] by (simp add: first_index_def)



lemmas match_rules = commodity_rule_def country_rule_def port_rule_def unit_rule_def qty_rule_def
  inr_rule_def usd_rule_def


text \<open>The fields of a record after one pass of the chain, with the guards as Booleans.\<close>

lemma if_chain_fields:
  fixes R :: column_indices and a b c d e f f' g g' :: bool and x :: "nat option"
  defines "R' \<equiv>
     (if a then R\<lparr>commodity := x\<rparr>
      else if b then R\<lparr>country := x\<rparr>
      else if c then R\<lparr>port := x\<rparr>
      else if d then R\<lparr>unit := x\<rparr>
      else if e then R\<lparr>qty := x\<rparr>
      else if f then (if f' then R\<lparr>inr := x\<rparr> else R)
      else if g then (if g' then R\<lparr>usd := x\<rparr> else R)
      else R)"
  shows "commodity R' = (if a then x else commodity R)"
    and "country R' = (if \<not> a \<and> b then x else country R)"
    and "port R' = (if \<not> a \<and> \<not> b \<and> c then x else port R)"
    and "unit R' = (if \<not> a \<and> \<not> b \<and> \<not> c \<and> d then x else unit R)"
    and "qty R' = (if \<not> a \<and> \<not> b \<and> \<not> c \<and> \<not> d \<and> e then x else qty R)"
    and "inr R' = (if \<not> a \<and> \<not> b \<and> \<not> c \<and> \<not> d \<and> \<not> e \<and> f \<and> f' then x else inr R)"
    and "usd R' = (if \<not> a \<and> \<not> b \<and> \<not> c \<and> \<not> d \<and> \<not> e \<and> \<not> f \<and> g \<and> g' then x else usd R)"
  unfolding R'_def by simp_all

lemma assign_column_all:
  "commodity (assign_column n v R) =
      (if commodity R = None \<and> cell_matches commodity_rule v then Some n else commodity R)
   \<and> country (assign_column n v R) =
      (if (country R = None \<and> cell_matches country_rule v)
          \<and> \<not> (commodity R = None \<and> cell_matches commodity_rule v) then Some n else country R)
   \<and> port (assign_column n v R) =
      (if (port R = None \<and> cell_matches port_rule v)
          \<and> \<not> (commodity R = None \<and> cell_matches commodity_rule v)
          \<and> \<not> (country R = None \<and> cell_matches country_rule v) then Some n else port R)
   \<and> unit (assign_column n v R) =
      (if unit R = None \<and> cell_matches unit_rule v then Some n else unit R)
   \<and> qty (assign_column n v R) =
      (if qty R = None \<and> cell_matches qty_rule v then Some n else qty R)
   \<and> inr (assign_column n v R) =
      (if inr R = None \<and> cell_matches inr_rule v
          \<and> \<not> (commodity R = None \<and> cell_matches commodity_rule v)
          \<and> \<not> (country R = None \<and> cell_matches country_rule v)
          \<and> \<not> (port R = None \<and> cell_matches port_rule v) then Some n else inr R)
   \<and> usd (assign_column n v R) =
      (if usd R = None \<and> cell_matches usd_rule v \<and> \<not> cell_matches inr_rule v
          \<and> \<not> (commodity R = None \<and> cell_matches commodity_rule v)
          \<and> \<not> (country R = None \<and> cell_matches country_rule v)
          \<and> \<not> (port R = None \<and> cell_matches port_rule v) then Some n else usd R)"
proof (cases "\<exists>s. v = Str s")
  case False
  then have "assign_column n v R = R" "\<And>rule. \<not> cell_matches rule v"
    by (cases v; simp add: assign_column_def cell_matches_def)+
  then show ?thesis by simp
next
  case True
  then obtain s where v: "v = Str s" by blast
  define t where "t = upper s"
  define oc where "oc = occurs_in ''COMMODITY'' t"
  define ok where "ok = occurs_in ''COUNTRY'' t"
  define op where "op = occurs_in ''PORT'' t"
  define tu where "tu \<longleftrightarrow> t = ''UNIT''"
  define tq where "tq \<longleftrightarrow> t = ''QTY''"
  define oi where "oi \<longleftrightarrow> occurs_in ''INR'' t \<or> occurs_in ''VALUE(INR)'' t"
  define od where "od \<longleftrightarrow> occurs_in ''US $'' t \<or> occurs_in ''USD'' t \<or> occurs_in ''VALUE(US'' t"
  have M: "cell_matches commodity_rule v = oc" "cell_matches country_rule v = ok"
    "cell_matches port_rule v = op" "cell_matches unit_rule v = tu" "cell_matches qty_rule v = tq"
    "cell_matches inr_rule v = oi" "cell_matches usd_rule v = od"
    by (simp_all add: v cell_matches_def t_def match_rules oc_def ok_def op_def tu_def tq_def
        oi_def od_def)
  have A: "assign_column n v R =
          (if oc \<and> commodity R = None then R\<lparr>commodity := Some n\<rparr>
           else if ok \<and> country R = None then R\<lparr>country := Some n\<rparr>
           else if op \<and> port R = None then R\<lparr>port := Some n\<rparr>
           else if tu \<and> unit R = None then R\<lparr>unit := Some n\<rparr>
           else if tq \<and> qty R = None then R\<lparr>qty := Some n\<rparr>
           else if oi then (if inr R = None then R\<lparr>inr := Some n\<rparr> else R)
           else if od then (if usd R = None then R\<lparr>usd := Some n\<rparr> else R)
           else R)"
    by (simp add: v assign_column_def Let_def t_def oc_def ok_def op_def tu_def tq_def oi_def od_def)
  have U: "tu \<or> tq \<Longrightarrow> \<not> oc \<and> \<not> ok \<and> \<not> op \<and> \<not> oi \<and> \<not> od" "\<not> (tu \<and> tq)"
    unfolding oc_def ok_def op_def tu_def tq_def oi_def od_def by auto
  have cond: "(p \<longleftrightarrow> q) \<Longrightarrow> (if p then Some n else y) = (if q then Some n else y)"
    for p q and y :: "nat option" by simp
  show ?thesis
    unfolding A if_chain_fields M by (intro conjI cond; use U in blast)
qed

lemmas assign_column_fields =
  assign_column_all[THEN conjunct1]
  assign_column_all[THEN conjunct2, THEN conjunct1]
  assign_column_all[THEN conjunct2, THEN conjunct2, THEN conjunct1]
  assign_column_all[THEN conjunct2, THEN conjunct2, THEN conjunct2, THEN conjunct1]
  assign_column_all[THEN conjunct2, THEN conjunct2, THEN conjunct2, THEN conjunct2, THEN conjunct1]
  assign_column_all[THEN conjunct2, THEN conjunct2, THEN conjunct2, THEN conjunct2, THEN conjunct2,
    THEN conjunct1]
  assign_column_all[THEN conjunct2, THEN conjunct2, THEN conjunct2, THEN conjunct2, THEN conjunct2,
    THEN conjunct2]




lemma find_column_indices_bound:
  "f \<in> set index_fields \<Longrightarrow> f (find_column_indices xs) = Some j \<Longrightarrow> j < length xs"
proof (induction xs arbitrary: f j rule: rev_induct)
  case Nil
  then show ?case by (auto simp: find_column_indices_def no_indices_def index_fields_def)
next
  case (snoc v xs)
  let ?R = "find_column_indices xs"
  have "f ?R = Some j \<or> j = length xs"
    using snoc.prems unfolding find_column_indices_snoc
    by (auto simp: index_fields_def assign_column_fields split: if_splits)
  then show ?case using snoc.IH[OF snoc.prems(1)] by auto
qed



lemma spec_header_indices:
  "find_column_indices spec_header =
     \<lparr>commodity = Some 1, country = Some 2, port = None, unit = Some 4, qty = Some 3,
      inr = Some 5, usd = Some 6\<rparr>"
  by (simp add: find_column_indices_def spec_header_def no_indices_def assign_column_def upper_def
      upper_char_def)


subsection \<open>Frames\<close>

lemma length_le_ncols: "r \<in> set rows \<Longrightarrow> length r \<le> ncols rows"
  unfolding ncols_def by (induction rows) auto

lemma length_pad_row: "length r \<le> n \<Longrightarrow> length (pad_row n c r) = n"
  by (simp add: pad_row_def)

lemma data_frame_rows:
  "length (data_frame rows) = length rows"
  "p \<in> set (data_frame rows) \<Longrightarrow> length p = ncols rows"
  by (auto simp: data_frame_def length_pad_row length_le_ncols)

lemma cell_at_pad_row: "cell_at (pad_row n NaN r) i = cell_at r i"
  by (auto simp: cell_at_def pad_row_def nth_append)

lemma row_valid_pad: "row_valid ind (pad_row n NaN r) = row_valid ind r"
  by (simp add: row_valid_def cell_at_pad_row cong: option.case_cong)

lemma row_record_pad:
  "row_record ind y m dt (pad_row n NaN r) q v u = row_record ind y m dt r q v u"
  by (simp add: row_record_def str_field_def cell_at_pad_row cong: option.case_cong)

lemma numeric_column_pad:
  "numeric_column lib idx (map (pad_row n NaN) rows) = numeric_column lib idx rows"
  by (simp add: numeric_column_def cell_at_pad_row comp_def cong: option.case_cong)

lemma row_records_pad:
  "row_records ind y m dt (map (pad_row n NaN) kept) q v u = row_records ind y m dt kept q v u"
  by (simp add: row_records_def row_record_pad)

lemma assign_column_NaN: "assign_column i NaN R = R"
  by (simp add: assign_column_def)

lemma scan_header_NaN: "scan_header i (replicate k NaN) R = R"
  by (induction k arbitrary: i) (simp_all add: assign_column_NaN)

lemma find_column_indices_pad:
  "find_column_indices (pad_row n NaN r) = find_column_indices r"
  by (simp add: find_column_indices_def pad_row_def scan_header_append scan_header_NaN)

text \<open>
  The indices come from the header of the same frame, so they lie inside it and the
  padding with columns of \<^verbatim>\<open>None\<close> never happens.
\<close>

lemma fold_max_less: "a < W \<Longrightarrow> \<forall>i\<in>set xs. i < W \<Longrightarrow> fold max xs a < (W::nat)"
  by (induction xs arbitrary: a) simp_all

lemma pad_columns_none:
  assumes "\<forall>f\<in>set index_fields. \<forall>i. f ind = Some i \<longrightarrow> i < W"
  shows "pad_columns ind W data_df = (W, data_df)"
proof -
  let ?v = "concat (map (\<lambda>f. case f ind of None \<Rightarrow> [] | Some i \<Rightarrow> [i]) index_fields)"
  have all: "\<forall>i\<in>set ?v. i < W" using assms by (auto split: option.splits)
  have "fold max ?v 0 < W" if "?v \<noteq> []"
  proof -
    from that obtain i where "i \<in> set ?v" by (cases ?v) auto
    with all have "0 < W" by fastforce
    then show ?thesis using all by (intro fold_max_less) simp_all
  qed
  then have "?v = [] \<or> \<not> W \<le> fold max ?v 0" using not_le by blast
  then show ?thesis unfolding pad_columns_def Let_def by (elim disjE) simp_all
qed

lemma filter_zip_map:
  "filter (\<lambda>(r, c). P c) (zip xs (map f xs)) = map (\<lambda>r. (r, f r)) (filter (\<lambda>r. P (f r)) xs)"
  by (induction xs) simp_all

lemma map_upt_nth: "map (\<lambda>j. f (xs ! j)) [0..<length xs] = map f xs"
proof -
  have "map (\<lambda>j. f (xs ! j)) [0..<length xs] = map f (map ((!) xs) [0..<length xs])"
    by (simp del: map_nth)
  then show ?thesis by (simp only: map_nth)
qed

subsection \<open>The column-wise extraction is the row-wise one\<close>

lemma iloc_column_rows:
  assumes "i < W" "\<forall>r\<in>set df. length r = W"
  shows "iloc_column W df i = Inr (map (\<lambda>r. cell_at r i) df)"
  using assms by (simp add: iloc_column_def cell_at_def)

lemma safe_str_extract_rows:
  assumes "\<forall>i. idx = Some i \<longrightarrow> i < W" "\<forall>r\<in>set df. length r = W"
  shows "safe_str_extract W df idx d = Inr (map (str_field idx d) df)"
proof (cases idx)
  case None
  have "str_field None d = (\<lambda>_. d)" by (rule ext) (simp add: str_field_def)
  then show ?thesis using None by (simp add: safe_str_extract_def map_replicate_const)
next
  case (Some i)
  then have "iloc_column W df i = Inr (map (\<lambda>r. cell_at r i) df)"
    using assms by (intro iloc_column_rows) simp_all
  then show ?thesis using Some by (simp add: safe_str_extract_def str_field_def)
qed

lemma safe_numeric_extract_rows:
  assumes "\<forall>i. idx = Some i \<longrightarrow> i < W" "\<forall>r\<in>set df. length r = W"
  shows "safe_numeric_extract W df idx =
           Inr (case idx of
                  None \<Rightarrow> Missing (length df)
                | Some i \<Rightarrow> To_numeric (map (\<lambda>r. cell_at r i) df))"
proof (cases idx)
  case None
  then show ?thesis by (simp add: safe_numeric_extract_def)
next
  case (Some i)
  then have "iloc_column W df i = Inr (map (\<lambda>r. cell_at r i) df)"
    using assms by (intro iloc_column_rows) simp_all
  then show ?thesis
    using Some by (simp add: safe_numeric_extract_def parse_numeric_series_def)
qed

lemma from_pandas_rows:
  "from_pandas lib (case idx of
                      None \<Rightarrow> Missing (length df)
                    | Some i \<Rightarrow> To_numeric (map (\<lambda>r. cell_at r i) df)) =
     (case numeric_column lib idx df of None \<Rightarrow> Inl ComputeError | Some ints \<Rightarrow> Inr ints)"
  by (simp add: from_pandas_def numeric_column_def split: option.splits)

lemma extract_rows_rows:
  assumes len: "\<forall>r\<in>set data_df. length r = W"
    and bound: "\<forall>f\<in>set index_fields. \<forall>i. f ind = Some i \<longrightarrow> i < W"
    and ci: "commodity ind = Some ci"
  shows "extract_rows lib ind W data_df y m dt =
     (let kept = filter (row_valid ind) data_df in
      if kept = [] then Inr []
      else if \<not> int32 y \<or> \<not> int32 m then Inl OverflowError
      else converted lib ind y m dt kept)"
proof -
  let ?g = "\<lambda>r. strip (astype_str (cell_at r ci))"
  let ?kept = "filter (row_valid ind) data_df"
  have b: "\<forall>i. f ind = Some i \<longrightarrow> i < W" if "f \<in> set index_fields" for f
    using bound that by blast
  have bs: "\<forall>i. country ind = Some i \<longrightarrow> i < W" "\<forall>i. port ind = Some i \<longrightarrow> i < W"
    "\<forall>i. unit ind = Some i \<longrightarrow> i < W" "\<forall>i. qty ind = Some i \<longrightarrow> i < W"
    "\<forall>i. inr ind = Some i \<longrightarrow> i < W" "\<forall>i. usd ind = Some i \<longrightarrow> i < W" "ci < W"
    using b[of country] b[of port] b[of unit] b[of qty] b[of inr] b[of usd] b[of commodity] ci
    by (simp_all add: index_fields_def)
  have pad: "pad_columns ind W data_df = (W, data_df)" by (rule pad_columns_none[OF bound])
  have col: "iloc_column W data_df ci = Inr (map (\<lambda>r. cell_at r ci) data_df)"
    using bs(7) len by (rule iloc_column_rows)
  have rv: "row_valid ind = (\<lambda>r. valid_commodity (?g r))"
    by (rule ext) (simp add: row_valid_def ci)
  have kept: "filter (\<lambda>(r, c). valid_commodity c)
                (zip data_df (map (\<lambda>c. strip (astype_str c)) (map (\<lambda>r. cell_at r ci) data_df)))
              = map (\<lambda>r. (r, ?g r)) ?kept"
    unfolding rv using filter_zip_map[of valid_commodity data_df ?g] by (simp add: comp_def)
  have klen: "\<forall>r\<in>set ?kept. length r = W" using len by simp
  have fst: "map fst (map (\<lambda>r. (r, ?g r)) ?kept) = ?kept" by (simp add: comp_def)
  have snd: "map snd (map (\<lambda>r. (r, ?g r)) ?kept) = map ?g ?kept" by (simp add: comp_def)
  have rows: "map (\<lambda>j. \<lparr>Commodity = map ?g ?kept ! j,
                        Country = map (str_field (country ind) []) ?kept ! j,
                        Port = map (str_field (port ind) []) ?kept ! j, Year = y, Month = m,
                        Type = import_export dt, Quantity = q ! j,
                        Unit = Some (map (str_field (unit ind) ''N/A'') ?kept ! j),
                        INR_Value = v ! j, USD_Value = u ! j\<rparr>)
               [0..<length ?kept]
             = row_records ind y m dt ?kept q v u" for q v u
    unfolding row_records_def by (rule nth_equalityI) (simp_all add: row_record_def ci)
  have conv: "then_do (from_pandas lib
                 (case qty ind of None \<Rightarrow> Missing (length ?kept)
                  | Some i \<Rightarrow> To_numeric (map (\<lambda>r. cell_at r i) ?kept))) (\<lambda>q.
              then_do (from_pandas lib
                 (case inr ind of None \<Rightarrow> Missing (length ?kept)
                  | Some i \<Rightarrow> To_numeric (map (\<lambda>r. cell_at r i) ?kept))) (\<lambda>v.
              then_do (from_pandas lib
                 (case usd ind of None \<Rightarrow> Missing (length ?kept)
                  | Some i \<Rightarrow> To_numeric (map (\<lambda>r. cell_at r i) ?kept))) (\<lambda>u.
                Inr (row_records ind y m dt ?kept q v u)))) = converted lib ind y m dt ?kept"
    unfolding from_pandas_rows converted_def then_do_def by (simp split: option.splits)
  have "extract_rows lib ind W data_df y m dt =
     (if ?kept = [] then Inr []
      else if \<not> int32 y \<or> \<not> int32 m then Inl OverflowError
      else then_do (from_pandas lib
                 (case qty ind of None \<Rightarrow> Missing (length ?kept)
                  | Some i \<Rightarrow> To_numeric (map (\<lambda>r. cell_at r i) ?kept))) (\<lambda>q.
              then_do (from_pandas lib
                 (case inr ind of None \<Rightarrow> Missing (length ?kept)
                  | Some i \<Rightarrow> To_numeric (map (\<lambda>r. cell_at r i) ?kept))) (\<lambda>v.
              then_do (from_pandas lib
                 (case usd ind of None \<Rightarrow> Missing (length ?kept)
                  | Some i \<Rightarrow> To_numeric (map (\<lambda>r. cell_at r i) ?kept))) (\<lambda>u.
                Inr (row_records ind y m dt ?kept q v u)))))"
    unfolding extract_rows_def pad ci
    by (simp add: col then_do_def[of "Inr _"] kept Let_def fst snd rows
        safe_str_extract_rows[OF bs(1) klen] safe_str_extract_rows[OF bs(2) klen]
        safe_str_extract_rows[OF bs(3) klen] safe_numeric_extract_rows[OF bs(4) klen]
        safe_numeric_extract_rows[OF bs(5) klen] safe_numeric_extract_rows[OF bs(6) klen]
        del: map_map cong: if_cong)
  then show ?thesis unfolding conv Let_def .
qed

lemma converted_pad:
  "converted lib ind y m dt (map (pad_row n NaN) kept) = converted lib ind y m dt kept"
  by (simp add: converted_def numeric_column_pad row_records_pad cong: option.case_cong)

lemma sheet_records_converted:
  assumes "2 \<le> length rows" "commodity (find_column_indices (rows ! 1)) \<noteq> None"
    "country (find_column_indices (rows ! 1)) \<noteq> None"
  shows "Inr (sheet_records lib rows year month data_type) =
     (let ind = find_column_indices (rows ! 1); kept = filter (row_valid ind) (drop 2 rows) in
      if kept = [] \<or> \<not> int32 year \<or> \<not> int32 month then Inr []
      else case converted lib ind year month data_type kept of
             Inl e \<Rightarrow> Inr []
           | Inr df \<Rightarrow> Inr df)"
proof -
  from assms(2,3) obtain ci co where "commodity (find_column_indices (rows ! 1)) = Some ci"
    "country (find_column_indices (rows ! 1)) = Some co" by auto
  then show ?thesis
    using assms(1)
    by (simp add: sheet_records_def converted_def Let_def split: option.splits del: One_nat_def)
qed

lemma parse_xls_body_rows:
  assumes "read_sheet lib xls_data = Inr rows"
  shows "parse_xls_file lib xls_data year month data_type =
           Inr (sheet_records lib rows year month data_type)"
proof (cases "length rows < 2")
  case True
  then show ?thesis
    using assms
    by (simp add: parse_xls_file_def parse_xls_body_def then_do_def Let_def data_frame_rows
        sheet_records_def)
next
  case False
  let ?W = "ncols rows"
  let ?df = "data_frame rows"
  let ?ind = "find_column_indices (rows ! 1)"
  have l2: "2 \<le> length rows" using False by simp
  have h_in: "rows ! 1 \<in> set rows" using l2 by simp
  have hdr: "?df ! 1 = pad_row ?W NaN (rows ! 1)" using l2 by (simp add: data_frame_def)
  have ind: "find_column_indices (?df ! 1) = ?ind" unfolding hdr by (rule find_column_indices_pad)
  have hlen: "length (?df ! 1) = ?W"
    unfolding hdr using length_le_ncols[OF h_in] by (rule length_pad_row)
  have ne: "?df \<noteq> []" using l2 data_frame_rows(1)[of rows] by auto
  have dl: "\<not> length ?df < 2" using l2 by (simp add: data_frame_rows)
  have body: "parse_xls_body lib xls_data year month data_type =
      (if ?W = 0 then Inr []
       else if commodity ?ind = None \<or> country ?ind = None then Inr []
       else if drop 2 ?df = [] then Inr []
       else extract_rows lib ?ind ?W (drop 2 ?df) year month data_type)"
    using assms ne dl by (simp add: parse_xls_body_def then_do_def Let_def ind del: One_nat_def)
  show ?thesis
  proof (cases "?W = 0")
    case True
    then have "rows ! 1 = []" using length_le_ncols[OF h_in] by simp
    then have "commodity ?ind = None"
      by (simp add: find_column_indices_Nil no_indices_def del: One_nat_def)
    then show ?thesis
      using True l2 by (simp add: parse_xls_file_def body sheet_records_def del: One_nat_def)
  next
    case W: False
    show ?thesis
    proof (cases "commodity ?ind = None \<or> country ?ind = None")
      case True
      then show ?thesis
        using W l2 by (simp add: parse_xls_file_def body sheet_records_def Let_def del: One_nat_def)
    next
      case found: False
      then obtain ci where ci: "commodity ?ind = Some ci" by auto
      let ?kept = "filter (row_valid ?ind) (drop 2 rows)"
      have dd: "drop 2 ?df = map (pad_row ?W NaN) (drop 2 rows)"
        by (simp add: data_frame_def drop_map)
      have len: "\<forall>r\<in>set (drop 2 ?df). length r = ?W"
        using data_frame_rows(2)[of _ rows] by (auto dest: in_set_dropD)
      have bound: "\<forall>f\<in>set index_fields. \<forall>i. f ?ind = Some i \<longrightarrow> i < ?W"
        using find_column_indices_bound[of _ "?df ! 1"] unfolding ind hlen by blast
      have kept: "filter (row_valid ?ind) (drop 2 ?df) = map (pad_row ?W NaN) ?kept"
        unfolding dd by (simp add: filter_map comp_def row_valid_pad)
      have ex: "extract_rows lib ?ind ?W (drop 2 ?df) year month data_type =
         (if ?kept = [] then Inr []
          else if \<not> int32 year \<or> \<not> int32 month then Inl OverflowError
          else converted lib ?ind year month data_type ?kept)"
        unfolding extract_rows_rows[OF len bound ci] Let_def kept converted_pad by simp
      have sr: "Inr (sheet_records lib rows year month data_type) =
          (if ?kept = [] \<or> \<not> int32 year \<or> \<not> int32 month then Inr []
           else case converted lib ?ind year month data_type ?kept of
                  Inl e \<Rightarrow> Inr []
                | Inr df \<Rightarrow> Inr df)"
        using sheet_records_converted[OF l2, of lib year month data_type] found
        by (simp add: Let_def del: One_nat_def)
      have e: "drop 2 ?df = [] \<longleftrightarrow> drop 2 rows = []" unfolding dd by simp
      have bd: "parse_xls_body lib xls_data year month data_type =
          (if drop 2 rows = [] then Inr []
           else extract_rows lib ?ind ?W (drop 2 ?df) year month data_type)"
        unfolding body e using W found by auto
      show ?thesis
      proof (cases "drop 2 rows = []")
        case True
        then show ?thesis unfolding parse_xls_file_def bd sr by simp
      next
        case False
        then show ?thesis unfolding parse_xls_file_def bd sr ex by (simp split: sum.splits)
      qed
    qed
  qed
qed

lemma parse_xls_file_unreadable:
  assumes "read_sheet lib xls_data = Inl e"
  shows "parse_xls_file lib xls_data year month data_type = Inr []"
  using assms by (simp add: parse_xls_file_def parse_xls_body_def then_do_def)


lemmas sheet_eval = read_sheet_def choose_engine_def detect_excel_format_def OLE2_def PK_def

lemmas row_eval = row_valid_def row_record_def str_field_def cell_at_def
  astype_str_def strip_def isspace_def valid_commodity_def upper_def upper_char_def
  import_export_def

subsection \<open>The numeric conversion\<close>











subsection \<open>Claims about the header scan and the extraction\<close>







text \<open>
  C10. \<^verbatim>\<open>parse_xls_file\<close> always returns a frame and never an exception. The
  frame is empty when no engine can read the bytes, when the sheet has fewer than two
  rows, and when no data row has a valid commodity.
\<close>

theorem parse_xls_file_total:
  "(\<exists>df. parse_xls_file lib xls_data year month data_type = Inr df)
   \<and> ((\<forall>engine. read_excel lib engine xls_data = None) \<longrightarrow>
        parse_xls_file lib xls_data year month data_type = Inr [])
   \<and> (\<forall>e. read_sheet lib xls_data = Inl e \<longrightarrow>
        parse_xls_file lib xls_data year month data_type = Inr [])
   \<and> (\<forall>rows. read_sheet lib xls_data = Inr rows \<and> length rows < 2 \<longrightarrow>
        parse_xls_file lib xls_data year month data_type = Inr [])
   \<and> (\<forall>rows. read_sheet lib xls_data = Inr rows
          \<and> (\<forall>r\<in>set (drop 2 rows). \<not> row_valid (find_column_indices (rows ! 1)) r) \<longrightarrow>
        parse_xls_file lib xls_data year month data_type = Inr [])"
proof (intro conjI allI impI)
  show "\<exists>df. parse_xls_file lib xls_data year month data_type = Inr df"
    by (simp add: parse_xls_file_def split: sum.splits)
next
  assume "\<forall>engine. read_excel lib engine xls_data = None"
  then have "read_sheet lib xls_data = Inl ExcelReadError"
    by (simp add: read_sheet_def Let_def split: option.splits)
  then show "parse_xls_file lib xls_data year month data_type = Inr []"
    by (rule parse_xls_file_unreadable)
next
  fix e assume "read_sheet lib xls_data = Inl e"
  then show "parse_xls_file lib xls_data year month data_type = Inr []"
    by (rule parse_xls_file_unreadable)
next
  fix rows assume "read_sheet lib xls_data = Inr rows \<and> length rows < 2"
  then show "parse_xls_file lib xls_data year month data_type = Inr []"
    using parse_xls_body_rows[of lib xls_data rows year month data_type]
    by (simp add: sheet_records_def)
next
  fix rows assume h: "read_sheet lib xls_data = Inr rows
          \<and> (\<forall>r\<in>set (drop 2 rows). \<not> row_valid (find_column_indices (rows ! 1)) r)"
  then have "filter (row_valid (find_column_indices (rows ! 1))) (drop 2 rows) = []"
    by (simp add: filter_empty_conv)
  then have "sheet_records lib rows year month data_type = []"
    by (simp add: sheet_records_def Let_def del: One_nat_def)
  then show "parse_xls_file lib xls_data year month data_type = Inr []"
    using h parse_xls_body_rows[of lib xls_data rows year month data_type] by simp
qed

text \<open>
  The theorem for libraries that cannot read the bytes, for a sheet of one row, and for a
  sheet whose data rows are a repeated header and a blank commodity.
\<close>

theorem parse_xls_file_total_witness:
  "parse_xls_file broken_libraries (OLE2 @ [0]) 2021 11 Import = Inr []
   \<and> parse_xls_file (sheet_libraries [[Str ''Export data'']]) [] 2021 11 Import = Inr []
   \<and> parse_xls_file (sheet_libraries echo_sheet) [] 2021 11 Import = Inr []"
proof -
  have a: "\<forall>engine. read_excel broken_libraries engine (OLE2 @ [0]) = None"
    by (simp add: broken_libraries_def)
  have 1: "parse_xls_file broken_libraries (OLE2 @ [0]) 2021 11 Import = Inr []"
    using parse_xls_file_total[of broken_libraries "OLE2 @ [0]" 2021 11 Import] a by blast
  have b: "read_sheet (sheet_libraries [[Str ''Export data'']]) [] = Inr [[Str ''Export data'']]
           \<and> length [[Str ''Export data'']] < 2"
    by (simp add: sheet_eval sheet_libraries_def)
  have 2: "parse_xls_file (sheet_libraries [[Str ''Export data'']]) [] 2021 11 Import = Inr []"
    using parse_xls_file_total[of "sheet_libraries [[Str ''Export data'']]" "[]" 2021 11 Import] b
    by blast
  have hdr: "echo_sheet ! 1 = spec_header" by (simp add: echo_sheet_def)
  have c: "read_sheet (sheet_libraries echo_sheet) [] = Inr echo_sheet
           \<and> (\<forall>r\<in>set (drop 2 echo_sheet). \<not> row_valid (find_column_indices (echo_sheet ! 1)) r)"
    unfolding hdr spec_header_indices
    by (simp add: sheet_eval sheet_libraries_def echo_sheet_def row_eval)
  have 3: "parse_xls_file (sheet_libraries echo_sheet) [] 2021 11 Import = Inr []"
    using parse_xls_file_total[of "sheet_libraries echo_sheet" "[]" 2021 11 Import] c by blast
  show ?thesis using 1 2 3 by simp
qed

end
